theory Spec2Isabelle
  imports Complex_Main
begin

section \<open>Graphics: the command log, the path builder and the bounds pass\<close>

text \<open>
  A shallow embedding of \<^verbatim>\<open>src/display/Graphics.js\<close>. Methods mutate the receiver; here
  they take the \<open>Graphics\<close> value as their last argument and return the updated one.

  Numbers are real numbers. Where a result depends on what the arithmetic of the script
  rounds, in \<^verbatim>\<open>rect\<close> and in \<^verbatim>\<open>__bezierRange\<close> and \<^verbatim>\<open>__bezierDot\<close>, every
  operation is followed by the rounding \<open>fl\<close> of IEEE double precision. The arithmetic of
  arcs and circles and that of the class \<^verbatim>\<open>Rectangle\<close>, which the spec describes over the
  reals, is exact; the results about them compare commands or evaluate small integers and
  do not rest on rounding. Infinities are not represented, so a result that overflows in
  the script has no counterpart here. NaN is represented where the decoder can produce it.
\<close>

subsection \<open>Numbers\<close>

text \<open>
  \<open>pow2 k\<close> is the power of two with the integer exponent \<open>k\<close>; \<open>roundEven\<close> rounds to the
  nearest integer and a tie to the even one. \<open>fl v\<close> is the double nearest to \<open>v\<close>, ties to
  even: 53 significant bits, with the fixed spacing \<open>pow2 (- 1074)\<close> of the subnormal
  numbers below \<open>pow2 (- 1022)\<close>. The script's overflow to an infinity, for results of
  magnitude \<open>pow2 1024\<close> and more, is not represented.
\<close>

definition pow2 :: "int \<Rightarrow> real" where
  "pow2 k = (if 0 \<le> k then 2 ^ nat k else 1 / 2 ^ nat (- k))"

definition roundEven :: "real \<Rightarrow> int" where
  "roundEven q =
     (let n = \<lfloor>q\<rfloor>; r = q - of_int n
      in if r < 1 / 2 then n else if 1 / 2 < r then n + 1 else if even n then n else n + 1)"

definition fl :: "real \<Rightarrow> real" where
  "fl v =
     (if v = 0 then 0
      else (let e = max \<lfloor>log 2 \<bar>v\<bar>\<rfloor> (- 1022); u = pow2 (e - 52)
            in of_int (roundEven (v / u)) * u))"

text \<open>A finite double: a number that rounding leaves as it is, below the overflow bound.\<close>

definition isDouble :: "real \<Rightarrow> bool" where
  "isDouble v = (fl v = v \<and> \<bar>v\<bar> < pow2 1024)"

text \<open>The operators of the script on doubles: the exact result, rounded.\<close>

definition fadd :: "real \<Rightarrow> real \<Rightarrow> real" where "fadd a b = fl (a + b)"
definition fsub :: "real \<Rightarrow> real \<Rightarrow> real" where "fsub a b = fl (a - b)"
definition fmul :: "real \<Rightarrow> real \<Rightarrow> real" where "fmul a b = fl (a * b)"
definition fdiv :: "real \<Rightarrow> real \<Rightarrow> real" where "fdiv a b = fl (a / b)"
definition fsqrt :: "real \<Rightarrow> real" where "fsqrt a = fl (sqrt a)"

text \<open>
  A value of the script's number type where NaN can occur: a number, or none for NaN.
  An operation with NaN gives NaN.
\<close>

type_synonym number = "real option"

definition js_add :: "number \<Rightarrow> number \<Rightarrow> number" where
  "js_add a b = (case (a, b) of (Some u, Some v) \<Rightarrow> Some (fadd u v) | _ \<Rightarrow> None)"

text \<open>
  Modelled from the spec: the class \<^verbatim>\<open>Debug\<close> is not part of the source file. The spec
  has the numeric arguments "checked by precondition assertions active in debug builds;
  violations fail fast", and the check compiled out in production. The flag says whether
  the build is a debug build; a value that is NaN violates the assertion.
\<close>

datatype error = AssertionFailed

definition Debug_isNumber :: "bool \<Rightarrow> number list \<Rightarrow> error + unit" where
  \<comment> \<open>Modelled from the spec: Debug.isNumber is not part of the source file.\<close>
  "Debug_isNumber debug values =
     (if debug \<and> None \<in> set values then Inl AssertionFailed else Inr ())"

subsection \<open>Rectangle\<close>

text \<open>
  Modelled from the spec: the class \<^verbatim>\<open>Rectangle\<close> is not part of the source file. The
  spec gives it the fields x, y, width and height and the operations union, inflate and
  fromPoints.
\<close>

record Rectangle =
  rect_x :: real
  rect_y :: real
  rect_width :: real
  rect_height :: real

definition Rectangle_new :: Rectangle where
  \<comment> \<open>Modelled from the spec: \<^verbatim>\<open>new Rectangle()\<close>, the zero-size rectangle at the
     origin.\<close>
  "Rectangle_new = \<lparr>rect_x = 0, rect_y = 0, rect_width = 0, rect_height = 0\<rparr>"

definition isEmpty :: "Rectangle \<Rightarrow> bool" where
  \<comment> \<open>Modelled from the spec: the class Rectangle is not part of the source file. The spec
     speaks of an "empty" rectangle without defining it; a rectangle counts as empty here when
     it has no area.\<close>
  "isEmpty r = (rect_width r = 0 \<or> rect_height r = 0)"

definition union :: "Rectangle \<Rightarrow> Rectangle \<Rightarrow> Rectangle" where
  \<comment> \<open>Modelled from the spec: Rectangle.union is not part of the source file. "returns/produces
     the smallest rectangle containing both; union with an empty/absent rectangle is
     identity". The receiver is the first argument and is tested first.\<close>
  "union this other =
     (if isEmpty this then other
      else if isEmpty other then this
      else
        (let x0 = min (rect_x this) (rect_x other);
             x1 = max (rect_x this + rect_width this) (rect_x other + rect_width other);
             y0 = min (rect_y this) (rect_y other);
             y1 = max (rect_y this + rect_height this) (rect_y other + rect_height other)
         in \<lparr>rect_x = x0, rect_y = y0, rect_width = x1 - x0, rect_height = y1 - y0\<rparr>))"

definition inflate :: "real \<Rightarrow> real \<Rightarrow> Rectangle \<Rightarrow> Rectangle" where
  \<comment> \<open>Modelled from the spec: Rectangle.inflate is not part of the source file. "expands
     symmetrically: x -= dx, width += 2 dx, y -= dy, height += 2 dy".\<close>
  "inflate dx dy r =
     \<lparr>rect_x = rect_x r - dx, rect_y = rect_y r - dy,
      rect_width = rect_width r + 2 * dx, rect_height = rect_height r + 2 * dy\<rparr>"

fun sweep :: "real list \<Rightarrow> real \<times> real \<times> real \<times> real \<Rightarrow> (real \<times> real \<times> real \<times> real) option" where
  \<comment> \<open>Modelled from the spec: the loop of Rectangle.fromPointsXY, over the pairs that follow
     the first; the accumulator holds the least and greatest coordinates so far.\<close>
  "sweep [] acc = Some acc"
| "sweep [px] acc = None"
| "sweep (px # py # rest) (minX, minY, maxX, maxY) =
     sweep rest (min minX px, min minY py, max maxX px, max maxY py)"

fun fromPointsXY :: "real list \<Rightarrow> Rectangle option" where
  \<comment> \<open>Modelled from the spec: Rectangle.fromPointsXY is not part of the source file. "min/max
     sweep over a flat sequence of (x,y) pairs". The spec does not say what the sweep gives
     for no point at all or for a dangling coordinate; the model gives no rectangle there.\<close>
  "fromPointsXY (px # py # rest) =
     map_option
       (\<lambda>(minX, minY, maxX, maxY).
          \<lparr>rect_x = minX, rect_y = minY, rect_width = maxX - minX, rect_height = maxY - minY\<rparr>)
       (sweep rest (px, py, px, py))"
| "fromPointsXY _ = None"

subsection \<open>Commands\<close>

text \<open>
  Modelled from the spec: the enumeration \<^verbatim>\<open>GraphicsCommandType\<close> and the class
  \<^verbatim>\<open>GraphicsCommand\<close> are not part of the source file. The spec lists the twelve command
  types; a command is its type and the list of its arguments.
\<close>

datatype GraphicsCommandType =
  BEGIN_PATH | CLOSE_PATH | MOVE_TO | LINE_TO | ARC | RECT | BEZIER_CURVE_TO
  | LINE_STYLE | FILL_STYLE | BOUNDS | FILL | STROKE

text \<open>
  An argument of a command: a number, NaN, a string (the caps and joints of a line style)
  or a boolean (the direction of an arc).
\<close>

datatype arg = Num real | NaN | Str string | Flag bool

definition numArg :: "number \<Rightarrow> arg" where
  "numArg v = (case v of Some r \<Rightarrow> Num r | None \<Rightarrow> NaN)"

record GraphicsCommand =
  cmd_type :: GraphicsCommandType
  cmd_data :: "arg list"

definition GraphicsCommand_new :: "GraphicsCommandType \<Rightarrow> arg list \<Rightarrow> GraphicsCommand" where
  "GraphicsCommand_new t d = \<lparr>cmd_type = t, cmd_data = d\<rparr>"

definition getNumber :: "GraphicsCommand \<Rightarrow> nat \<Rightarrow> real option" where
  \<comment> \<open>Modelled from the spec: the class GraphicsCommand is not part of the source file. The
     numeric argument at an index; none when the index is out of range or the argument is
     not a number.\<close>
  "getNumber c i =
     (if i < length (cmd_data c)
      then (case cmd_data c ! i of Num v \<Rightarrow> Some v | _ \<Rightarrow> None)
      else None)"

definition getString :: "GraphicsCommand \<Rightarrow> nat \<Rightarrow> string option" where
  \<comment> \<open>Modelled from the spec: the class GraphicsCommand is not part of the source file. The
     symbolic argument at an index; none when the index is out of range or the argument is
     not a string.\<close>
  "getString c i =
     (if i < length (cmd_data c)
      then (case cmd_data c ! i of Str s \<Rightarrow> Some s | _ \<Rightarrow> None)
      else None)"

text \<open>
  Modelled from the spec: the style constants \<^verbatim>\<open>CapsStyle\<close> and \<^verbatim>\<open>JointStyle\<close> are
  not part of the source file; the spec names round caps and miter, round and bevel joints.
  Only that the joint styles differ from one another matters below.
\<close>

definition CapsStyle_ROUND :: string where "CapsStyle_ROUND = ''round''"
definition JointStyle_MITER :: string where "JointStyle_MITER = ''miter''"
definition JointStyle_ROUND :: string where "JointStyle_ROUND = ''round''"
definition JointStyle_BEVEL :: string where "JointStyle_BEVEL = ''bevel''"

text \<open>
  Modelled from the spec: \<^verbatim>\<open>MathEx.PI2\<close> is not part of the source file; the spec has a
  full turn, \<open>2 * pi\<close>, where the script has this constant.
\<close>

definition PI2 :: real where "PI2 = 2 * pi"

subsection \<open>The drawing surface\<close>

record Graphics =
  mBounds :: Rectangle
  mCommandQueue :: "GraphicsCommand list"
  mPosX :: real
  mPosY :: real
  mPadding :: real
  mClipRect :: "Rectangle option"

text \<open>The constructor. The clip rectangle belongs to the base class and starts absent.\<close>

definition Graphics_new :: Graphics where
  "Graphics_new =
     \<lparr>mBounds = Rectangle_new, mCommandQueue = [], mPosX = 0, mPosY = 0, mPadding = 0,
      mClipRect = None\<rparr>"

definition pushCommand :: "GraphicsCommandType \<Rightarrow> arg list \<Rightarrow> Graphics \<Rightarrow> Graphics" where
  "pushCommand t d g = g\<lparr>mCommandQueue := mCommandQueue g @ [GraphicsCommand_new t d]\<rparr>"

definition lineStyle ::
  "real \<Rightarrow> real \<Rightarrow> real \<Rightarrow> string \<Rightarrow> string \<Rightarrow> real \<Rightarrow> Graphics \<Rightarrow> Graphics" where
  "lineStyle lineWidth color alpha caps joints miterLimit g =
     (if lineWidth \<le> 0 then g
      else pushCommand LINE_STYLE
             [Num lineWidth, Num color, Num alpha, Str caps, Str joints, Num miterLimit] g)"

definition fillStyle :: "real \<Rightarrow> real \<Rightarrow> Graphics \<Rightarrow> Graphics" where
  "fillStyle color alpha g = pushCommand FILL_STYLE [Num color, Num alpha] g"

definition moveTo :: "real \<Rightarrow> real \<Rightarrow> Graphics \<Rightarrow> Graphics" where
  "moveTo x y g = pushCommand MOVE_TO [Num x, Num y] (g\<lparr>mPosX := x, mPosY := y\<rparr>)"

definition lineTo :: "real \<Rightarrow> real \<Rightarrow> Graphics \<Rightarrow> Graphics" where
  "lineTo x y g =
     (let g1 = g\<lparr>mPosX := x, mPosY := y\<rparr>;
          g2 = pushCommand LINE_TO [Num x, Num y] g1
      in pushCommand BOUNDS [Num (mPosX g2), Num (mPosY g2), Num x, Num y] g2)"

definition circle :: "real \<Rightarrow> real \<Rightarrow> real \<Rightarrow> Graphics \<Rightarrow> Graphics" where
  "circle x y radius g =
     pushCommand BOUNDS [Num (x - radius), Num (y - radius), Num (x + radius), Num (y + radius)]
       (pushCommand ARC [Num x, Num y, Num radius, Num 0, Num PI2] g)"

text \<open>
  \<^verbatim>\<open>rect\<close> is also called by the decoder, with what it has parsed: its arguments may be
  NaN, and its assertion may fail. The two sums are double additions.
\<close>

definition rect ::
  "bool \<Rightarrow> number \<Rightarrow> number \<Rightarrow> number \<Rightarrow> number \<Rightarrow> Graphics \<Rightarrow> error + Graphics" where
  "rect debug x y w h g =
     (case Debug_isNumber debug [x, y, w, h] of
        Inl e \<Rightarrow> Inl e
      | Inr _ \<Rightarrow>
          Inr (pushCommand BOUNDS [numArg x, numArg y, numArg (js_add x w), numArg (js_add y h)]
                 (pushCommand RECT [numArg x, numArg y, numArg w, numArg h] g)))"

definition beginPath :: "Graphics \<Rightarrow> Graphics" where
  "beginPath g = pushCommand BEGIN_PATH [] g"

definition closePath :: "Graphics \<Rightarrow> Graphics" where
  "closePath g = pushCommand CLOSE_PATH [] g"

definition stroke :: "Graphics \<Rightarrow> Graphics" where
  "stroke g = pushCommand STROKE [] g"

definition fill :: "Graphics \<Rightarrow> Graphics" where
  "fill g = pushCommand FILL [] g"

subsection \<open>The bounds pass\<close>

record GraphicsPath =
  bounds :: "Rectangle option"
  points :: "real list"
  maxLineWidth :: real
  lastLineWidth :: real
  lineMult :: real

definition GraphicsPath_new :: GraphicsPath where
  "GraphicsPath_new =
     \<lparr>bounds = None, points = [], maxLineWidth = 0, lastLineWidth = 0, lineMult = 1 / 2\<rparr>"

text \<open>
  The loop of the \<^verbatim>\<open>BOUNDS\<close> case pushes the arguments two at a time. A log written
  by the builder holds an even number of numbers there; for anything else the script would
  push \<^verbatim>\<open>undefined\<close> or NaN, and the pass on such points is not represented.
\<close>

fun boundsData :: "arg list \<Rightarrow> real list option" where
  "boundsData [] = Some []"
| "boundsData (Num a # Num b # rest) = map_option (\<lambda>ps. a # b # ps) (boundsData rest)"
| "boundsData _ = None"

text \<open>
  One iteration of the loop of \<^verbatim>\<open>onGetLocalBounds\<close>: the running rectangle and the
  path accumulator before a command, and after it. The result is none where the script
  would compute with \<^verbatim>\<open>undefined\<close> or NaN (an argument that is missing or not a
  number) or where the spec
  leaves the rectangle of a point list open.
\<close>

definition boundsStep ::
  "Rectangle \<times> GraphicsPath \<Rightarrow> GraphicsCommand \<Rightarrow> (Rectangle \<times> GraphicsPath) option" where
  "boundsStep s cmd =
     (let (rb, path) = s in
      case cmd_type cmd of
        BEGIN_PATH \<Rightarrow>
          Some ((case bounds path of None \<Rightarrow> rb | Some pb \<Rightarrow> union rb pb), GraphicsPath_new)
      | BOUNDS \<Rightarrow>
          (case boundsData (cmd_data cmd) of
             None \<Rightarrow> None
           | Some ps \<Rightarrow> Some (rb, path\<lparr>points := points path @ ps\<rparr>))
      | LINE_STYLE \<Rightarrow>
          (case getNumber cmd 0 of
             None \<Rightarrow> None
           | Some w \<Rightarrow>
               (let path1 = path\<lparr>lastLineWidth := w\<rparr>;
                    joints = getString cmd 4
                in Some (rb, if joints = Some JointStyle_MITER then path1\<lparr>lineMult := 1\<rparr>
                             else path1)))
      | FILL \<Rightarrow>
          (case fromPointsXY (points path) of
             None \<Rightarrow> None
           | Some tmpBounds \<Rightarrow>
               Some (rb, path\<lparr>bounds :=
                 Some (case bounds path of None \<Rightarrow> tmpBounds | Some pb \<Rightarrow> union pb tmpBounds)\<rparr>))
      | STROKE \<Rightarrow>
          (let path1 = (if lastLineWidth path > maxLineWidth path
                        then path\<lparr>maxLineWidth := lastLineWidth path\<rparr> else path);
               path2 = (if maxLineWidth path1 = 0 then path1\<lparr>maxLineWidth := 1\<rparr> else path1);
               path3 = path2\<lparr>maxLineWidth := maxLineWidth path2 * lineMult path2\<rparr>
           in case fromPointsXY (points path3) of
                None \<Rightarrow> None
              | Some tmpBounds \<Rightarrow>
                  (let tmp = (if length (points path3) > 2
                              then inflate (maxLineWidth path3) (maxLineWidth path3) tmpBounds
                              else tmpBounds)
                   in Some (rb, path3\<lparr>bounds :=
                        Some (case bounds path3 of None \<Rightarrow> tmp | Some pb \<Rightarrow> union pb tmp)\<rparr>)))
      | _ \<Rightarrow> Some s)"

fun boundsLoop ::
  "GraphicsCommand list \<Rightarrow> Rectangle \<times> GraphicsPath \<Rightarrow> (Rectangle \<times> GraphicsPath) option" where
  "boundsLoop [] s = Some s"
| "boundsLoop (cmd # rest) s =
     (case boundsStep s cmd of None \<Rightarrow> None | Some s' \<Rightarrow> boundsLoop rest s')"

definition onGetLocalBounds :: "Graphics \<Rightarrow> Rectangle option" where
  "onGetLocalBounds g =
     (case mClipRect g of
        Some clip \<Rightarrow> Some clip
      | None \<Rightarrow>
          (case boundsLoop (mCommandQueue g) (Rectangle_new, GraphicsPath_new) of
             None \<Rightarrow> None
           | Some (rb, path) \<Rightarrow>
               Some (case bounds path of None \<Rightarrow> rb | Some pb \<Rightarrow> union rb pb)))"

subsection \<open>Arcs\<close>

text \<open>
  The remainder \<^verbatim>\<open>a % b\<close> of the script on real numbers: the quotient is truncated
  towards zero, so the result has the sign of \<open>a\<close>. It is used with \<open>b = PI2\<close> only.
\<close>

definition js_rem :: "real \<Rightarrow> real \<Rightarrow> real" where
  "js_rem a b = a - b * of_int (if 0 \<le> a / b then \<lfloor>a / b\<rfloor> else \<lceil>a / b\<rceil>)"

text \<open>The loop \<^verbatim>\<open>while (end < start) end += MathEx.PI2\<close>.\<close>

function arcEnd :: "real \<Rightarrow> real \<Rightarrow> real" where
  "arcEnd start end0 = (if end0 < start then arcEnd start (end0 + PI2) else end0)"
  by pat_completeness auto
termination
proof (relation "measure (\<lambda>(start, end0). nat \<lceil>(start - end0) / PI2\<rceil>)")
  show "wf (measure (\<lambda>(start, end0). nat \<lceil>(start - end0) / PI2\<rceil>))"
    by simp
next
  fix start end0 :: real
  assume lt: "end0 < start"
  have pos: "0 < PI2"
    by (simp add: PI2_def)
  have eq: "(start - (end0 + PI2)) / PI2 = (start - end0) / PI2 - 1"
    using pos by (simp add: field_simps)
  have "0 < (start - end0) / PI2"
    using lt pos by simp
  then have "0 < \<lceil>(start - end0) / PI2\<rceil>"
    by simp
  then show "((start, end0 + PI2), (start, end0)) \<in> measure (\<lambda>(start, end0). nat \<lceil>(start - end0) / PI2\<rceil>)"
    by (simp add: eq)
qed

declare arcEnd.simps [simp del]

text \<open>
  The box of an arc of less than a full turn, relative to the centre: the second branch of
  \<^verbatim>\<open>arc\<close>, from the normalisation of the angles to the four extrema.
\<close>

definition arcExtrema :: "real \<Rightarrow> real \<Rightarrow> real \<Rightarrow> bool \<Rightarrow> real \<times> real \<times> real \<times> real" where
  "arcExtrema radius startAngle endAngle anticlockwise =
     (let start0 = js_rem startAngle PI2 + (if startAngle < 0 then PI2 else 0);
          end0 = endAngle;
          (start, end1) = (if anticlockwise then (endAngle, start0) else (start0, end0));
          end2 = arcEnd start end1;
          right = (start = 0 \<or> end2 \<ge> PI2);
          left = (start \<le> pi \<and> end2 \<ge> pi \<or> end2 \<ge> pi * 3);
          bottom = (start \<le> pi * 0.5 \<and> end2 \<ge> pi * 0.5 \<or> end2 \<ge> pi * 2.5);
          top = (start \<le> pi * 1.5 \<and> end2 \<ge> pi * 1.5 \<or> end2 \<ge> pi * 3.5);
          startCos = cos start * radius;
          endCos = cos end2 * radius;
          startSin = sin start * radius;
          endSin = sin end2 * radius;
          minX = (if left then - radius else min startCos endCos);
          maxX = (if right then radius else max startCos endCos);
          minY = (if top then - radius else min startSin endSin);
          maxY = (if bottom then radius else max startSin endSin)
      in (minX, minY, maxX, maxY))"

text \<open>
  \<^verbatim>\<open>arc\<close>. The helper \<^verbatim>\<open>Circle.getCircumferencePoint\<close> is not part of the source
  file and is a parameter: it takes the centre, the radius and an angle and gives a point.
\<close>

definition arc ::
  "(real \<Rightarrow> real \<Rightarrow> real \<Rightarrow> real \<Rightarrow> real \<times> real) \<Rightarrow>
   real \<Rightarrow> real \<Rightarrow> real \<Rightarrow> real \<Rightarrow> real \<Rightarrow> bool \<Rightarrow> Graphics \<Rightarrow> Graphics" where
  "arc getCircumferencePoint x y radius startAngle endAngle anticlockwise g =
     (let diff = \<bar>startAngle - endAngle\<bar> in
      if startAngle = endAngle then g
      else
        (let (pts, needsMoveTo, endAngle1, moveToX, moveToY) =
               (if diff \<ge> PI2 then
                  (let end0 = getCircumferencePoint x y radius (endAngle + pi * 0.5)
                   in ([x - radius, y - radius, x + radius, y + radius],
                       True, startAngle + PI2, fst end0, snd end0))
                else
                  (let (minX, minY, maxX, maxY) =
                         arcExtrema radius startAngle endAngle anticlockwise
                   in ([minX + x, minY + y, maxX + x, maxY + y], False, endAngle, 0, 0)));
             g1 = pushCommand ARC
                    [Num x, Num y, Num radius, Num startAngle, Num endAngle1, Flag anticlockwise] g;
             g2 = pushCommand BOUNDS (map Num pts) g1
         in if needsMoveTo then pushCommand MOVE_TO [Num moveToX, Num moveToY] g2 else g2))"

definition circumferencePoint :: "real \<Rightarrow> real \<Rightarrow> real \<Rightarrow> real \<Rightarrow> real \<times> real" where
  \<comment> \<open>Modelled from the spec: Circle.getCircumferencePoint is not part of the source file.
     "the point on the circle at [an] angle (computed via the standard circumference-point
     formula)". It is used only where the parameter of \<open>arc\<close> needs a value.\<close>
  "circumferencePoint x y r angle = (x + r * cos angle, y + r * sin angle)"

subsection \<open>Cubic curves\<close>

text \<open>
  \<^verbatim>\<open>__bezierDot\<close>: the sum of four products, each operation rounded, in the order in
  which the script evaluates them (from the left).
\<close>

definition bezierDot :: "real \<Rightarrow> real \<Rightarrow> real \<Rightarrow> real \<Rightarrow> real \<Rightarrow> real" where
  "bezierDot p0 p1 p2 p3 x =
     (let y = fsub 1 x
      in fadd
           (fadd
              (fadd (fmul (fmul (fmul p0 y) y) y)
                    (fmul (fmul (fmul (fmul 3 p1) x) y) y))
              (fmul (fmul (fmul (fmul 3 p2) x) x) y))
           (fmul (fmul (fmul p3 x) x) x))"

text \<open>
  \<^verbatim>\<open>__bezierRange\<close>: the pair (min, max). In the script \<^verbatim>\<open>1 / (a * 2)\<close> is
  infinite when \<open>a * 2\<close> is zero, both roots are then infinite or NaN, and
  \<^verbatim>\<open>isFinite\<close> replaces them by one half. A root that is not finite because a finite
  operation overflows is not represented.
\<close>

definition bezierRange :: "real \<Rightarrow> real \<Rightarrow> real \<Rightarrow> real \<Rightarrow> real \<times> real" where
  "bezierRange p0 p1 p2 p3 =
     (let a = fsub (fadd (fsub p2 (fmul 2 p1)) p0) (fadd (fsub p3 (fmul 2 p2)) p1);
          b = fsub (fmul 2 (fsub p1 p0)) (fmul 2 (fsub p2 p1));
          c = fsub p0 p1;
          discriminant = fsub (fmul b b) (fmul (fmul 4 a) c);
          mn = min p0 p3;
          mx = max p0 p3
      in if discriminant \<ge> 0 then
           (let discRoot = fsqrt discriminant;
                a2 = fmul a 2;
                x1 = (if a2 = 0 then 1 / 2 else fmul (fadd (- b) discRoot) (fdiv 1 a2));
                x2 = (if a2 = 0 then 1 / 2 else fmul (fsub (- b) discRoot) (fdiv 1 a2));
                (mn1, mx1) =
                  (if x1 > 0 \<and> x1 < 1
                   then (let dot = bezierDot p0 p1 p2 p3 x1 in (min dot mn, max dot mx))
                   else (mn, mx));
                (mn2, mx2) =
                  (if x2 > 0 \<and> x2 < 1
                   then (let dot = bezierDot p0 p1 p2 p3 x2 in (min dot mn1, max dot mx1))
                   else (mn1, mx1))
            in (mn2, mx2))
         else (mn, mx))"

definition bezierCurveTo ::
  "real \<Rightarrow> real \<Rightarrow> real \<Rightarrow> real \<Rightarrow> real \<Rightarrow> real \<Rightarrow> Graphics \<Rightarrow> Graphics" where
  "bezierCurveTo cp1x cp1y cp2x cp2y x y g =
     (let rangeX = bezierRange (mPosX g) cp1x cp2x x;
          rangeY = bezierRange (mPosY g) cp1y cp2y y;
          g1 = g\<lparr>mPosX := x, mPosY := y\<rparr>;
          g2 = pushCommand BEZIER_CURVE_TO
                 [Num cp1x, Num cp1y, Num cp2x, Num cp2y, Num x, Num y] g1
      in pushCommand BOUNDS [Num (fst rangeX), Num (fst rangeY), Num (snd rangeX), Num (snd rangeY)] g2)"

subsection \<open>The shape-script decoder\<close>



definition startsWith :: "string \<Rightarrow> string \<Rightarrow> bool" where
  "startsWith p s = (take (length p) s = p)"




text \<open>
  The decoder hands \<^verbatim>\<open>circle\<close> what it has parsed. \<open>circle_nan\<close> is \<^verbatim>\<open>circle\<close> for
  arguments that may be NaN: the same two commands, and NaN wherever an argument of the
  sum or difference is NaN.
\<close>

definition nan_lift :: "(real \<Rightarrow> real \<Rightarrow> real) \<Rightarrow> number \<Rightarrow> number \<Rightarrow> number" where
  "nan_lift f a b = (case (a, b) of (Some u, Some v) \<Rightarrow> Some (f u v) | _ \<Rightarrow> None)"

definition circle_nan :: "number \<Rightarrow> number \<Rightarrow> number \<Rightarrow> Graphics \<Rightarrow> Graphics" where
  "circle_nan x y radius g =
     pushCommand BOUNDS
       [numArg (nan_lift (-) x radius), numArg (nan_lift (-) y radius),
        numArg (nan_lift (+) x radius), numArg (nan_lift (+) y radius)]
       (pushCommand ARC [numArg x, numArg y, numArg radius, Num 0, Num PI2] g)"






section \<open>Properties\<close>

lemmas builder_defs =
  pushCommand_def GraphicsCommand_new_def lineStyle_def fillStyle_def moveTo_def lineTo_def
  circle_def beginPath_def closePath_def stroke_def fill_def Graphics_new_def

lemmas pass_defs =
  onGetLocalBounds_def boundsStep_def GraphicsPath_new_def Rectangle_new_def getNumber_def
  getString_def union_def isEmpty_def inflate_def

subsection \<open>Rounding\<close>

text \<open>
  Powers of two, the rounding of a quotient to an integer, and the rounding \<open>fl\<close>: its
  value on a number whose binade is known, which evaluates it on a given fraction, and its
  distance from the exact value.
\<close>

lemma pow2_powr: "pow2 k = 2 powr (of_int k)"
  by (simp add: pow2_def powr_int)

lemma pow2_pos [simp]: "0 < pow2 k"
  by (simp add: pow2_def)

lemma pow2_nonneg [simp]: "0 \<le> pow2 k"
  using pow2_pos [of k] by linarith

lemma pow2_not_le_0 [simp]: "\<not> pow2 k \<le> 0"
  using pow2_pos [of k] by linarith

lemma pow2_neq_0 [simp]: "pow2 k \<noteq> 0"
  using pow2_pos [of k] by linarith

lemma pow2_add: "pow2 (j + k) = pow2 j * pow2 k"
  by (simp add: pow2_powr powr_add)

lemma pow2_mono: "j \<le> k \<Longrightarrow> pow2 j \<le> pow2 k"
  by (simp add: pow2_powr)

lemma roundEven_near: "\<bar>of_int (roundEven q) - q\<bar> \<le> 1 / 2"
  unfolding roundEven_def Let_def by (auto simp: abs_if) linarith+

lemma roundEven_of_int [simp]: "roundEven (of_int n) = n"
  by (simp add: roundEven_def)

lemma roundEven_0 [simp]: "roundEven 0 = 0"
  by (simp add: roundEven_def)

lemma roundEven_power2 [simp]: "roundEven (2 ^ n) = 2 ^ n"
  using roundEven_of_int [of "2 ^ n"] by simp

lemma roundEven_mono: "a \<le> b \<Longrightarrow> roundEven a \<le> roundEven b"
proof -
  assume ab: "a \<le> b"
  have fl: "\<lfloor>a\<rfloor> \<le> \<lfloor>b\<rfloor>" using ab by (rule floor_mono)
  show ?thesis
  proof (cases "\<lfloor>a\<rfloor> = \<lfloor>b\<rfloor>")
    case True
    then have "a - of_int \<lfloor>a\<rfloor> \<le> b - of_int \<lfloor>b\<rfloor>" using ab by simp
    then show ?thesis using True unfolding roundEven_def Let_def by auto
  next
    case False
    then have "\<lfloor>a\<rfloor> + 1 \<le> \<lfloor>b\<rfloor>" using fl by linarith
    moreover have "roundEven a \<le> \<lfloor>a\<rfloor> + 1" unfolding roundEven_def Let_def by auto
    moreover have "\<lfloor>b\<rfloor> \<le> roundEven b" unfolding roundEven_def Let_def by auto
    ultimately show ?thesis by linarith
  qed
qed

lemma binade:
  assumes "v \<noteq> 0"
  shows "pow2 \<lfloor>log 2 \<bar>v\<bar>\<rfloor> \<le> \<bar>v\<bar> \<and> \<bar>v\<bar> < pow2 (\<lfloor>log 2 \<bar>v\<bar>\<rfloor> + 1)"
proof -
  have "0 < \<bar>v\<bar>" using assms by simp
  then show ?thesis
    using floor_log_eq_powr_iff [of "\<bar>v\<bar>" 2 "\<lfloor>log 2 \<bar>v\<bar>\<rfloor>"]
    by (simp add: pow2_powr)
qed

lemma floor_log_binade:
  assumes "pow2 k \<le> \<bar>v\<bar>" and "\<bar>v\<bar> < pow2 (k + 1)"
  shows "\<lfloor>log 2 \<bar>v\<bar>\<rfloor> = k"
proof -
  have "0 < \<bar>v\<bar>" using assms(1) pow2_pos [of k] by linarith
  then show ?thesis
    using floor_log_eq_powr_iff [of "\<bar>v\<bar>" 2 k] assms
    by (simp add: pow2_powr)
qed

lemma fl_binade:
  assumes "pow2 k \<le> \<bar>v\<bar>" and "\<bar>v\<bar> < pow2 (k + 1)" and "- 1022 \<le> k"
  shows "fl v = of_int (roundEven (v / pow2 (k - 52))) * pow2 (k - 52)"
proof -
  have "v \<noteq> 0" using assms(1) pow2_pos [of k] by auto
  then show ?thesis
    using floor_log_binade [OF assms(1,2)] assms(3) by (simp add: fl_def Let_def max_def)
qed

lemma fl_subnormal:
  assumes "\<bar>v\<bar> < pow2 (- 1022)"
  shows "fl v = of_int (roundEven (v / pow2 (- 1074))) * pow2 (- 1074)"
proof (cases "v = 0")
  case True
  then show ?thesis by (simp add: fl_def)
next
  case False
  have "\<lfloor>log 2 \<bar>v\<bar>\<rfloor> < - 1022"
  proof (rule ccontr)
    assume "\<not> \<lfloor>log 2 \<bar>v\<bar>\<rfloor> < - 1022"
    then have "pow2 (- 1022) \<le> pow2 \<lfloor>log 2 \<bar>v\<bar>\<rfloor>" by (intro pow2_mono) simp
    then show False using binade [OF False] assms by linarith
  qed
  then show ?thesis using False by (simp add: fl_def Let_def max_def)
qed

lemma fl_near: "\<bar>fl v - v\<bar> \<le> pow2 (- 53) * \<bar>v\<bar> + pow2 (- 1075)"
proof (cases "v = 0")
  case True
  then show ?thesis by (simp add: fl_def)
next
  case False
  define e where "e = max \<lfloor>log 2 \<bar>v\<bar>\<rfloor> (- 1022)"
  define u where "u = pow2 (e - 52)"
  have u: "0 < u" by (simp add: u_def)
  have fl: "fl v = of_int (roundEven (v / u)) * u"
    using False by (simp add: fl_def Let_def e_def u_def)
  have "\<bar>of_int (roundEven (v / u)) - v / u\<bar> \<le> 1 / 2" by (rule roundEven_near)
  then have "\<bar>of_int (roundEven (v / u)) - v / u\<bar> * u \<le> 1 / 2 * u"
    using u by (intro mult_right_mono) simp_all
  moreover have "\<bar>of_int (roundEven (v / u)) - v / u\<bar> * u = \<bar>fl v - v\<bar>"
  proof -
    have "(of_int (roundEven (v / u)) - v / u) * u = fl v - v"
      using u by (simp add: fl field_simps)
    moreover have "\<bar>of_int (roundEven (v / u)) - v / u\<bar> * u =
        \<bar>(of_int (roundEven (v / u)) - v / u) * u\<bar>"
      using u by (simp add: abs_mult)
    ultimately show ?thesis by simp
  qed
  ultimately have near: "\<bar>fl v - v\<bar> \<le> u / 2" by simp
  have half: "u / 2 = pow2 (e - 53)"
    using pow2_add [of "e - 53" 1] by (simp add: u_def pow2_def [of 1])
  show ?thesis
  proof (cases "\<lfloor>log 2 \<bar>v\<bar>\<rfloor> \<le> - 1022")
    case True
    then have "e = - 1022" by (simp add: e_def)
    then have "u / 2 = pow2 (- 1075)" using half by simp
    moreover have "0 \<le> pow2 (- 53) * \<bar>v\<bar>" by simp
    ultimately show ?thesis using near by linarith
  next
    case False
    then have e: "e = \<lfloor>log 2 \<bar>v\<bar>\<rfloor>" by (simp add: e_def)
    have "pow2 (e - 53) = pow2 (- 53) * pow2 e"
      using pow2_add [of "- 53" e] by (simp add: algebra_simps)
    also have "\<dots> \<le> pow2 (- 53) * \<bar>v\<bar>"
      using binade [OF \<open>v \<noteq> 0\<close>] by (intro mult_left_mono) (simp_all add: e)
    finally have "u / 2 \<le> pow2 (- 53) * \<bar>v\<bar>" using half by simp
    moreover have "0 \<le> pow2 (- 1075)" by simp
    ultimately show ?thesis using near by linarith
  qed
qed

lemma fl_0 [simp]: "fl 0 = 0"
  by (simp add: fl_def)

lemma fl_nonneg: "0 \<le> v \<Longrightarrow> 0 \<le> fl v"
proof (cases "v = 0")
  case True
  then show ?thesis by simp
next
  case False
  assume "0 \<le> v"
  define u where "u = pow2 (max \<lfloor>log 2 \<bar>v\<bar>\<rfloor> (- 1022) - 52)"
  have u: "0 < u" by (simp add: u_def)
  have "roundEven 0 \<le> roundEven (v / u)"
    using \<open>0 \<le> v\<close> u by (intro roundEven_mono) simp
  then have "0 \<le> of_int (roundEven (v / u)) * u"
    using u by simp
  then show ?thesis
    using False by (simp add: fl_def Let_def u_def)
qed

lemma fl_le_1:
  assumes "0 < v" and "v < 1"
  shows "fl v \<le> 1"
proof -
  have v0: "v \<noteq> 0" using assms by simp
  define e where "e = max \<lfloor>log 2 \<bar>v\<bar>\<rfloor> (- 1022)"
  define u where "u = pow2 (e - 52)"
  have u: "0 < u" by (simp add: u_def)
  have "\<lfloor>log 2 \<bar>v\<bar>\<rfloor> < 0"
  proof (rule ccontr)
    assume "\<not> \<lfloor>log 2 \<bar>v\<bar>\<rfloor> < 0"
    then have "pow2 0 \<le> pow2 \<lfloor>log 2 \<bar>v\<bar>\<rfloor>" by (intro pow2_mono) simp
    moreover have "pow2 0 = 1" by (simp add: pow2_def)
    moreover have "\<bar>v\<bar> = v" using assms by simp
    ultimately show False using binade [OF v0] assms by linarith
  qed
  then have e: "e \<le> - 1" unfolding e_def by linarith
  have "pow2 (e - 52) * pow2 (52 - e) = 1"
    using pow2_add [of "e - 52" "52 - e"] by (simp add: pow2_def [of 0])
  then have inv: "1 / u = pow2 (52 - e)"
    by (simp add: u_def field_simps)
  have int: "pow2 (52 - e) = of_int (2 ^ nat (52 - e))"
    using e by (simp add: pow2_def)
  have "v / u \<le> 1 / u"
    using assms u by (simp add: divide_right_mono)
  then have "roundEven (v / u) \<le> roundEven (of_int (2 ^ nat (52 - e)))"
    unfolding inv int by (rule roundEven_mono)
  then have "roundEven (v / u) \<le> 2 ^ nat (52 - e)"
    by simp
  then have "(of_int (roundEven (v / u)) :: real) \<le> of_int (2 ^ nat (52 - e))"
    by (simp only: of_int_le_iff)
  then have "of_int (roundEven (v / u)) * u \<le> of_int (2 ^ nat (52 - e)) * u"
    using u by (intro mult_right_mono) simp_all
  also have "\<dots> = 1"
    using inv int u by (simp add: field_simps)
  finally show ?thesis
    using v0 by (simp add: fl_def Let_def e_def u_def)
qed

text \<open>
  The error of a rounded product and of a rounded sum whose operands carry errors already.
\<close>

lemma abs_mult_le:
  fixes a b :: real
  assumes "\<bar>a\<bar> \<le> Pa" and "\<bar>b\<bar> \<le> 1"
  shows "\<bar>a * b\<bar> \<le> Pa"
proof -
  have "\<bar>a * b\<bar> = \<bar>a\<bar> * \<bar>b\<bar>" by (simp add: abs_mult)
  also have "\<dots> \<le> \<bar>a\<bar> * 1" using assms(2) by (intro mult_left_mono) simp_all
  finally show ?thesis using assms(1) by simp
qed

lemma fmul_err:
  assumes A: "\<bar>A - a\<bar> \<le> eA" and B: "\<bar>B - b\<bar> \<le> eB" and a: "\<bar>a\<bar> \<le> Pa" and B1: "\<bar>B\<bar> \<le> 1"
  shows "\<bar>fmul A B - a * b\<bar> \<le> pow2 (- 53) * (Pa + eA) + pow2 (- 1075) + eA + Pa * eB"
proof -
  have Aabs: "\<bar>A\<bar> \<le> Pa + eA" using A a by linarith
  have AB: "\<bar>A * B\<bar> \<le> Pa + eA" by (rule abs_mult_le [OF Aabs B1])
  have "\<bar>fl (A * B) - A * B\<bar> \<le> pow2 (- 53) * \<bar>A * B\<bar> + pow2 (- 1075)" by (rule fl_near)
  also have "\<dots> \<le> pow2 (- 53) * (Pa + eA) + pow2 (- 1075)"
    using AB by (simp add: mult_left_mono)
  finally have r: "\<bar>fl (A * B) - A * B\<bar> \<le> pow2 (- 53) * (Pa + eA) + pow2 (- 1075)" .
  have Pa0: "0 \<le> Pa" using a by linarith
  have "A * B - a * b = (A - a) * B + a * (B - b)" by (simp add: algebra_simps)
  then have "\<bar>A * B - a * b\<bar> \<le> \<bar>(A - a) * B\<bar> + \<bar>a * (B - b)\<bar>" by (simp only: abs_triangle_ineq)
  moreover have "\<bar>(A - a) * B\<bar> \<le> eA" by (rule abs_mult_le [OF A B1])
  moreover have "\<bar>a * (B - b)\<bar> \<le> Pa * eB"
  proof -
    have "\<bar>a * (B - b)\<bar> = \<bar>a\<bar> * \<bar>B - b\<bar>" by (simp add: abs_mult)
    also have "\<dots> \<le> Pa * eB" using a B Pa0 by (intro mult_mono) simp_all
    finally show ?thesis .
  qed
  ultimately have "\<bar>A * B - a * b\<bar> \<le> eA + Pa * eB" by linarith
  then show ?thesis using r unfolding fmul_def by linarith
qed

lemma fadd_err:
  assumes A: "\<bar>A - a\<bar> \<le> eA" and B: "\<bar>B - b\<bar> \<le> eB" and a: "\<bar>a\<bar> \<le> Pa" and b: "\<bar>b\<bar> \<le> Pb"
  shows "\<bar>fadd A B - (a + b)\<bar> \<le> pow2 (- 53) * (Pa + eA + Pb + eB) + pow2 (- 1075) + eA + eB"
proof -
  have AB: "\<bar>A + B\<bar> \<le> Pa + eA + Pb + eB" using A B a b by linarith
  have "\<bar>fl (A + B) - (A + B)\<bar> \<le> pow2 (- 53) * \<bar>A + B\<bar> + pow2 (- 1075)" by (rule fl_near)
  also have "\<dots> \<le> pow2 (- 53) * (Pa + eA + Pb + eB) + pow2 (- 1075)"
    using AB by (simp add: mult_left_mono)
  finally have r: "\<bar>fl (A + B) - (A + B)\<bar> \<le> pow2 (- 53) * (Pa + eA + Pb + eB) + pow2 (- 1075)" .
  have "\<bar>(A + B) - (a + b)\<bar> \<le> eA + eB" using A B by linarith
  then show ?thesis using r unfolding fadd_def by linarith
qed

subsection \<open>Straight segments\<close>

text \<open>
  Claim C1. Scenario B of the spec: a line style of width 4 with miter joints, then
  \<^verbatim>\<open>moveTo(0,0)\<close>, \<^verbatim>\<open>lineTo(10,0)\<close> and \<^verbatim>\<open>stroke()\<close> on a new surface. The
  effective width is 4 as the spec says, but the points that reach the pass are the end
  point twice, so the raw box is the point (10, 0) and the result is the rectangle
  (6, -4, 8, 8), not (-4, -4, 18, 8).
\<close>

theorem scenario_B_bounds:
  "boundsLoop
     (mCommandQueue (stroke (lineTo 10 0 (moveTo 0 0
        (lineStyle 4 0 1 CapsStyle_ROUND JointStyle_MITER 3 Graphics_new)))))
     (Rectangle_new, GraphicsPath_new) =
   Some (Rectangle_new,
     \<lparr>bounds = Some \<lparr>rect_x = 6, rect_y = - 4, rect_width = 8, rect_height = 8\<rparr>,
      points = [10, 0, 10, 0], maxLineWidth = 4, lastLineWidth = 4, lineMult = 1\<rparr>)
   \<and> fromPointsXY [10, 0, 10, 0] =
       Some \<lparr>rect_x = 10, rect_y = 0, rect_width = 0, rect_height = 0\<rparr>
   \<and> onGetLocalBounds (stroke (lineTo 10 0 (moveTo 0 0
        (lineStyle 4 0 1 CapsStyle_ROUND JointStyle_MITER 3 Graphics_new)))) =
       Some \<lparr>rect_x = 6, rect_y = - 4, rect_width = 8, rect_height = 8\<rparr>"
  by (simp add: builder_defs pass_defs Let_def)

text \<open>
  Claim C2. \<^verbatim>\<open>lineTo\<close> stores the new position in the cursor before it reads the
  cursor for the \<^verbatim>\<open>BOUNDS\<close> command: with the cursor at (1, 2), \<^verbatim>\<open>lineTo(10, 0)\<close>
  records (10, 0, 10, 0), not (1, 2, 10, 0).
\<close>

theorem lineTo_bounds_use_new_cursor:
  "mCommandQueue (lineTo 10 0 (moveTo 1 2 Graphics_new)) =
     [\<lparr>cmd_type = MOVE_TO, cmd_data = [Num 1, Num 2]\<rparr>,
      \<lparr>cmd_type = LINE_TO, cmd_data = [Num 10, Num 0]\<rparr>,
      \<lparr>cmd_type = BOUNDS, cmd_data = [Num 10, Num 0, Num 10, Num 0]\<rparr>]"
  by (simp add: builder_defs Let_def)

subsection \<open>Rectangles\<close>

lemma rect_numbers:
  "rect debug (Some x) (Some y) (Some w) (Some h) g =
     Inr (pushCommand BOUNDS [Num x, Num y, Num (fl (x + w)), Num (fl (y + h))]
            (pushCommand RECT [Num x, Num y, Num w, Num h] g))"
  by (simp add: rect_def Debug_isNumber_def numArg_def js_add_def fadd_def)

text \<open>
  Claim C3, as the code has it. \<^verbatim>\<open>rect\<close> records the corner \<open>x + w\<close>, \<open>y + h\<close> as
  the script adds, rounded. With the double nearest to 0.1, \<open>3602879701896397 / 2 ^ 55\<close>, for
  \<open>x\<close> and \<open>y\<close> and the double nearest to 0.2, \<open>3602879701896397 / 2 ^ 54\<close>, for \<open>w\<close> and
  \<open>h\<close>, the sum \<open>10808639105689191 / 2 ^ 55\<close> lies between two doubles and is rounded up to
  \<open>5404319552844596 / 2 ^ 54\<close> (0.30000000000000004). The pass then returns the width and
  height \<open>7205759403792795 / 2 ^ 55\<close> (0.20000000000000004), not the 0.2 given.
\<close>

theorem rect_fill_rounds_counterexample:
  "isDouble (3602879701896397 / 36028797018963968)
   \<and> isDouble (3602879701896397 / 18014398509481984)
   \<and> (case rect True (Some (3602879701896397 / 36028797018963968))
              (Some (3602879701896397 / 36028797018963968))
              (Some (3602879701896397 / 18014398509481984))
              (Some (3602879701896397 / 18014398509481984)) Graphics_new of
         Inl e \<Rightarrow> None
       | Inr g \<Rightarrow> onGetLocalBounds (fill g)) =
       Some \<lparr>rect_x = 3602879701896397 / 36028797018963968,
             rect_y = 3602879701896397 / 36028797018963968,
             rect_width = 7205759403792795 / 36028797018963968,
             rect_height = 7205759403792795 / 36028797018963968\<rparr>
   \<and> (7205759403792795 :: real) / 36028797018963968 \<noteq> 3602879701896397 / 18014398509481984"
proof -
  have d1: "fl (3602879701896397 / 36028797018963968) = 3602879701896397 / 36028797018963968"
    by (subst fl_binade [where k = "- 4"]) (simp_all add: pow2_def roundEven_def)
  have d2: "fl (3602879701896397 / 18014398509481984) = 3602879701896397 / 18014398509481984"
    by (subst fl_binade [where k = "- 3"]) (simp_all add: pow2_def roundEven_def)
  have s: "fl (10808639105689191 / 36028797018963968) = 5404319552844596 / 18014398509481984"
    by (subst fl_binade [where k = "- 2"]) (simp_all add: pow2_def roundEven_def)
  show ?thesis
    by (simp add: isDouble_def d1 d2 rect_numbers s builder_defs pass_defs Let_def pow2_def)
qed

text \<open>
  Claim C3, amended. For all \<open>x\<close>, \<open>y\<close> and all \<open>w\<close>, \<open>h\<close> that are not negative and
  whose sums \<open>x + w\<close> and \<open>y + h\<close> are doubles, so that the two additions of \<^verbatim>\<open>rect\<close> are
  exact, \<^verbatim>\<open>rect(x, y, w, h)\<close> and \<^verbatim>\<open>fill()\<close> on a new surface make the bounds pass
  return exactly the rectangle with origin \<open>(x, y)\<close>, width \<open>w\<close> and height \<open>h\<close>. In general
  the corner that \<^verbatim>\<open>rect\<close> records is the rounded sum. The width and the height are
  differences from that corner; a subtraction that rounds gives \<open>w\<close> and \<open>h\<close> as well when
  they are doubles.
\<close>

theorem rect_fill_bounds:
  assumes "0 \<le> w" and "0 \<le> h" and "isDouble (x + w)" and "isDouble (y + h)"
  shows "rect debug (Some x) (Some y) (Some w) (Some h) g =
           Inr (pushCommand BOUNDS [Num x, Num y, Num (fl (x + w)), Num (fl (y + h))]
                  (pushCommand RECT [Num x, Num y, Num w, Num h] g))
       \<and> (case rect debug (Some x) (Some y) (Some w) (Some h) Graphics_new of
            Inl e \<Rightarrow> None
          | Inr g1 \<Rightarrow> onGetLocalBounds (fill g1)) =
           Some \<lparr>rect_x = x, rect_y = y, rect_width = w, rect_height = h\<rparr>
       \<and> (isDouble w \<longrightarrow> fsub (fadd x w) x = w)
       \<and> (isDouble h \<longrightarrow> fsub (fadd y h) y = h)"
  using assms
  by (simp add: rect_numbers isDouble_def fadd_def fsub_def builder_defs pass_defs Let_def)

theorem rect_fill_bounds_witness:
  "(0::real) \<le> 10 \<and> (0::real) \<le> 0 \<and> isDouble (3 + 10) \<and> isDouble (- 5 + 0)
   \<and> isDouble 10 \<and> isDouble 0
   \<and> (case rect True (Some 3) (Some (- 5)) (Some 10) (Some 0) Graphics_new of
        Inl e \<Rightarrow> None
      | Inr g1 \<Rightarrow> onGetLocalBounds (fill g1)) =
       Some \<lparr>rect_x = 3, rect_y = - 5, rect_width = 10, rect_height = 0\<rparr>
   \<and> fsub (fadd 3 10) 3 = 10 \<and> fsub (fadd (- 5) 0) (- 5) = 0"
proof -
  have d1: "fl 13 = 13"
    by (subst fl_binade [where k = 3]) (simp_all add: pow2_def roundEven_def)
  have d2: "fl (- 5) = - 5"
    by (subst fl_binade [where k = 2]) (simp_all add: pow2_def roundEven_def)
  have d3: "fl 10 = 10"
    by (subst fl_binade [where k = 3]) (simp_all add: pow2_def roundEven_def)
  have h1: "isDouble (3 + 10)" and h2: "isDouble (- 5 + 0)" and h3: "isDouble 10"
    and h4: "isDouble 0"
    by (simp_all add: isDouble_def d1 d2 d3 pow2_def)
  have le: "(0::real) \<le> 10" "(0::real) \<le> 0"
    by simp_all
  note t = rect_fill_bounds [where x = 3 and y = "- 5" and w = 10 and h = 0 and debug = True
        and g = Graphics_new, OF le h1 h2]
  have b: "(case rect True (Some 3) (Some (- 5)) (Some 10) (Some 0) Graphics_new of
        Inl e \<Rightarrow> None
      | Inr g1 \<Rightarrow> onGetLocalBounds (fill g1)) =
       Some \<lparr>rect_x = 3, rect_y = - 5, rect_width = 10, rect_height = 0\<rparr>"
    by (rule t [THEN conjunct2, THEN conjunct1])
  have s1: "fsub (fadd 3 10) 3 = 10"
    by (rule t [THEN conjunct2, THEN conjunct2, THEN conjunct1, THEN mp, OF h3])
  have s2: "fsub (fadd (- 5) 0) (- 5) = 0"
    by (rule t [THEN conjunct2, THEN conjunct2, THEN conjunct2, THEN mp, OF h4])
  show ?thesis
    using le h1 h2 h3 h4 b s1 s2 by blast
qed

subsection \<open>Arcs and circles\<close>

lemma arc_equal_angles: "arc gcp x y r a a acw g = g"
  by (simp add: arc_def)

lemma arc_full_turn:
  assumes "s \<noteq> e" and "\<bar>s - e\<bar> \<ge> PI2"
  shows "arc gcp x y r s e acw g =
     pushCommand MOVE_TO [Num (fst (gcp x y r (e + pi * 0.5))), Num (snd (gcp x y r (e + pi * 0.5)))]
       (pushCommand BOUNDS [Num (x - r), Num (y - r), Num (x + r), Num (y + r)]
         (pushCommand ARC [Num x, Num y, Num r, Num s, Num (s + PI2), Flag acw] g))"
  using assms by (simp add: arc_def Let_def split_def)

lemma arc_partial_turn:
  assumes "s \<noteq> e" and "\<not> \<bar>s - e\<bar> \<ge> PI2"
    and "arcExtrema r s e acw = (minX, minY, maxX, maxY)"
  shows "arc gcp x y r s e acw g =
     pushCommand BOUNDS [Num (minX + x), Num (minY + y), Num (maxX + x), Num (maxY + y)]
       (pushCommand ARC [Num x, Num y, Num r, Num s, Num e, Flag acw] g)"
  using assms by (simp add: arc_def Let_def)

lemma arc_cursor:
  "mPosX (arc gcp x y r s e acw g) = mPosX g \<and> mPosY (arc gcp x y r s e acw g) = mPosY g"
proof (cases "s = e")
  case True
  then show ?thesis by (simp add: arc_equal_angles)
next
  case ne: False
  show ?thesis
  proof (cases "\<bar>s - e\<bar> \<ge> PI2")
    case True
    then show ?thesis by (simp add: arc_full_turn [OF ne] pushCommand_def)
  next
    case False
    obtain minX minY maxX maxY where ex: "arcExtrema r s e acw = (minX, minY, maxX, maxY)"
      by (cases "arcExtrema r s e acw") auto
    show ?thesis by (simp add: arc_partial_turn [OF ne False ex] pushCommand_def)
  qed
qed

lemma arc_types:
  assumes ne: "s \<noteq> e"
  shows "take (length (mCommandQueue g)) (mCommandQueue (arc gcp x y r s e acw g)) = mCommandQueue g
       \<and> map cmd_type (drop (length (mCommandQueue g)) (mCommandQueue (arc gcp x y r s e acw g))) =
           (if \<bar>s - e\<bar> \<ge> PI2 then [ARC, BOUNDS, MOVE_TO] else [ARC, BOUNDS])"
proof (cases "\<bar>s - e\<bar> \<ge> PI2")
  case True
  then show ?thesis
    by (simp add: arc_full_turn [OF ne] pushCommand_def GraphicsCommand_new_def)
next
  case False
  obtain minX minY maxX maxY where ex: "arcExtrema r s e acw = (minX, minY, maxX, maxY)"
    by (cases "arcExtrema r s e acw") auto
  show ?thesis
    using False by (simp add: arc_partial_turn [OF ne False ex] pushCommand_def GraphicsCommand_new_def)
qed

lemma arcExtrema_zero: "arcExtrema 0 s e acw = (0, 0, 0, 0)"
  unfolding arcExtrema_def Let_def split_def
  by (simp only: mult_zero_right min.idem max.idem minus_zero if_cancel)

lemma PI2_pos: "0 < PI2"
  by (simp add: PI2_def)

lemma boundsLoop_append:
  "boundsLoop (xs @ ys) s = (case boundsLoop xs s of None \<Rightarrow> None | Some s' \<Rightarrow> boundsLoop ys s')"
  by (induction xs arbitrary: s) (simp_all split: option.splits)

lemma boundsStep_ARC: "boundsStep s \<lparr>cmd_type = ARC, cmd_data = d\<rparr> = Some s"
  by (cases s) (simp add: boundsStep_def)

lemma boundsStep_MOVE_TO: "boundsStep s \<lparr>cmd_type = MOVE_TO, cmd_data = d\<rparr> = Some s"
  by (cases s) (simp add: boundsStep_def)

lemma boundsLoop_arc_circle:
  assumes ne: "s \<noteq> e" and full: "\<bar>s - e\<bar> \<ge> PI2"
  shows "boundsLoop (mCommandQueue (arc gcp x y r s e acw g) @ rest) s0 =
         boundsLoop (mCommandQueue (circle x y r g) @ rest) s0"
proof -
  let ?b = "\<lparr>cmd_type = BOUNDS, cmd_data = [Num (x - r), Num (y - r), Num (x + r), Num (y + r)]\<rparr>"
  have qa: "mCommandQueue (arc gcp x y r s e acw g) @ rest =
      mCommandQueue g @
        (\<lparr>cmd_type = ARC, cmd_data = [Num x, Num y, Num r, Num s, Num (s + PI2), Flag acw]\<rparr> #
         ?b #
         \<lparr>cmd_type = MOVE_TO, cmd_data = [Num (fst (gcp x y r (e + pi * 0.5))),
              Num (snd (gcp x y r (e + pi * 0.5)))]\<rparr> # rest)"
    by (simp add: arc_full_turn [OF ne full] pushCommand_def GraphicsCommand_new_def)
  have qc: "mCommandQueue (circle x y r g) @ rest =
      mCommandQueue g @
        (\<lparr>cmd_type = ARC, cmd_data = [Num x, Num y, Num r, Num 0, Num PI2]\<rparr> # ?b # rest)"
    by (simp add: circle_def pushCommand_def GraphicsCommand_new_def)
  show ?thesis
    unfolding qa qc boundsLoop_append
    by (simp add: boundsStep_ARC boundsStep_MOVE_TO split: option.splits)
qed

lemma clip_arc: "mClipRect (arc gcp x y r s e acw g) = mClipRect g"
proof (cases "s = e")
  case True
  then show ?thesis by (simp add: arc_equal_angles)
next
  case ne: False
  show ?thesis
  proof (cases "\<bar>s - e\<bar> \<ge> PI2")
    case True
    then show ?thesis by (simp add: arc_full_turn [OF ne] pushCommand_def)
  next
    case False
    obtain minX minY maxX maxY where ex: "arcExtrema r s e acw = (minX, minY, maxX, maxY)"
      by (cases "arcExtrema r s e acw") auto
    show ?thesis by (simp add: arc_partial_turn [OF ne False ex] pushCommand_def)
  qed
qed

lemma onGetLocalBounds_cong:
  assumes "mClipRect g1 = mClipRect g2"
    and "boundsLoop (mCommandQueue g1) (Rectangle_new, GraphicsPath_new) =
         boundsLoop (mCommandQueue g2) (Rectangle_new, GraphicsPath_new)"
  shows "onGetLocalBounds g1 = onGetLocalBounds g2"
  by (simp only: onGetLocalBounds_def assms)

text \<open>
  Claim C4. When the start and end angles differ by a full turn or more, \<^verbatim>\<open>arc\<close>
  records the same bounds as \<^verbatim>\<open>circle\<close> at the same centre and radius, whatever the
  direction: the one \<^verbatim>\<open>BOUNDS\<close> command each of them appends holds the corners
  (x - r, y - r) and (x + r, y + r), the bounds pass cannot tell the two logs apart
  whatever follows, and on a new surface a fill gives the square around the centre.
\<close>

theorem arc_full_turn_bounds_eq_circle:
  assumes full: "\<bar>startAngle - endAngle\<bar> \<ge> PI2"
  shows "filter (\<lambda>c. cmd_type c = BOUNDS)
           (drop (length (mCommandQueue g))
              (mCommandQueue (arc gcp x y r startAngle endAngle acw g))) =
           [\<lparr>cmd_type = BOUNDS, cmd_data = [Num (x - r), Num (y - r), Num (x + r), Num (y + r)]\<rparr>]
       \<and> filter (\<lambda>c. cmd_type c = BOUNDS)
           (drop (length (mCommandQueue g)) (mCommandQueue (circle x y r g))) =
           [\<lparr>cmd_type = BOUNDS, cmd_data = [Num (x - r), Num (y - r), Num (x + r), Num (y + r)]\<rparr>]
       \<and> boundsLoop (mCommandQueue (arc gcp x y r startAngle endAngle acw g) @ rest) s0 =
           boundsLoop (mCommandQueue (circle x y r g) @ rest) s0
       \<and> onGetLocalBounds (fill (arc gcp x y r startAngle endAngle acw g)) =
           onGetLocalBounds (fill (circle x y r g))
       \<and> onGetLocalBounds (stroke (arc gcp x y r startAngle endAngle acw g)) =
           onGetLocalBounds (stroke (circle x y r g))
       \<and> onGetLocalBounds (fill (arc gcp x y r startAngle endAngle acw Graphics_new)) =
           Some \<lparr>rect_x = x - \<bar>r\<bar>, rect_y = y - \<bar>r\<bar>, rect_width = 2 * \<bar>r\<bar>, rect_height = 2 * \<bar>r\<bar>\<rparr>"
proof -
  have ne: "startAngle \<noteq> endAngle"
    using full PI2_pos by auto
  note arc_eq = arc_full_turn [OF ne full]
  have c1: "filter (\<lambda>c. cmd_type c = BOUNDS)
           (drop (length (mCommandQueue g))
              (mCommandQueue (arc gcp x y r startAngle endAngle acw g))) =
           [\<lparr>cmd_type = BOUNDS, cmd_data = [Num (x - r), Num (y - r), Num (x + r), Num (y + r)]\<rparr>]"
    by (simp add: arc_eq pushCommand_def GraphicsCommand_new_def)
  have c2: "filter (\<lambda>c. cmd_type c = BOUNDS)
           (drop (length (mCommandQueue g)) (mCommandQueue (circle x y r g))) =
           [\<lparr>cmd_type = BOUNDS, cmd_data = [Num (x - r), Num (y - r), Num (x + r), Num (y + r)]\<rparr>]"
    by (simp add: circle_def pushCommand_def GraphicsCommand_new_def)
  have c3: "\<And>rest s0. boundsLoop (mCommandQueue (arc gcp x y r startAngle endAngle acw g) @ rest) s0 =
           boundsLoop (mCommandQueue (circle x y r g) @ rest) s0"
    by (rule boundsLoop_arc_circle [OF ne full])
  have clip: "mClipRect (arc gcp x y r startAngle endAngle acw g) = mClipRect (circle x y r g)"
    by (simp add: clip_arc circle_def pushCommand_def)
  have c4: "onGetLocalBounds (fill (arc gcp x y r startAngle endAngle acw g)) =
           onGetLocalBounds (fill (circle x y r g))"
    by (rule onGetLocalBounds_cong) (simp_all add: fill_def pushCommand_def clip c3)
  have c5: "onGetLocalBounds (stroke (arc gcp x y r startAngle endAngle acw g)) =
           onGetLocalBounds (stroke (circle x y r g))"
    by (rule onGetLocalBounds_cong) (simp_all add: stroke_def pushCommand_def clip c3)
  have "onGetLocalBounds (fill (arc gcp x y r startAngle endAngle acw Graphics_new)) =
          onGetLocalBounds (fill (circle x y r Graphics_new))"
    by (rule onGetLocalBounds_cong)
      (simp_all add: fill_def pushCommand_def clip_arc circle_def boundsLoop_arc_circle [OF ne full])
  also have "\<dots> = Some \<lparr>rect_x = x - \<bar>r\<bar>, rect_y = y - \<bar>r\<bar>, rect_width = 2 * \<bar>r\<bar>, rect_height = 2 * \<bar>r\<bar>\<rparr>"
    by (simp add: builder_defs pass_defs Let_def abs_if min_def max_def)
  finally have c6: "onGetLocalBounds (fill (arc gcp x y r startAngle endAngle acw Graphics_new)) =
      Some \<lparr>rect_x = x - \<bar>r\<bar>, rect_y = y - \<bar>r\<bar>, rect_width = 2 * \<bar>r\<bar>, rect_height = 2 * \<bar>r\<bar>\<rparr>" .
  show ?thesis
    using c1 c2 c3 c4 c5 c6 by blast
qed

theorem arc_full_turn_bounds_eq_circle_witness:
  "\<bar>0 - PI2\<bar> \<ge> PI2 \<and>
   onGetLocalBounds (fill (arc circumferencePoint 5 5 2 0 PI2 True Graphics_new)) =
     Some \<lparr>rect_x = 3, rect_y = 3, rect_width = 4, rect_height = 4\<rparr> \<and>
   onGetLocalBounds (fill (circle 5 5 2 Graphics_new)) =
     Some \<lparr>rect_x = 3, rect_y = 3, rect_width = 4, rect_height = 4\<rparr>"
proof -
  have h: "\<bar>0 - PI2\<bar> \<ge> PI2"
    by simp
  show ?thesis
    using h arc_full_turn_bounds_eq_circle [OF h, of Graphics_new circumferencePoint 5 5 2 True]
    by (simp add: builder_defs pass_defs Let_def)
qed

lemma one_less_PI2: "\<not> \<bar>0 - 1\<bar> \<ge> PI2"
  using pi_ge_two by (simp add: PI2_def)

text \<open>
  Claim C6, as the code has it. \<^verbatim>\<open>arc\<close> returns at once only when the two angles are
  equal; there is no test of the radius. With a radius of zero and different angles it
  appends \<^verbatim>\<open>ARC\<close> and \<^verbatim>\<open>BOUNDS\<close>: the claim that nothing is appended fails for
  \<^verbatim>\<open>arc(0, 0, 0, 0, 1)\<close> on a new surface.
\<close>

theorem arc_zero_radius_counterexample:
  "mCommandQueue (arc circumferencePoint 0 0 0 0 1 False Graphics_new) =
     [\<lparr>cmd_type = ARC, cmd_data = [Num 0, Num 0, Num 0, Num 0, Num 1, Flag False]\<rparr>,
      \<lparr>cmd_type = BOUNDS, cmd_data = [Num 0, Num 0, Num 0, Num 0]\<rparr>]
   \<and> mCommandQueue (arc circumferencePoint 0 0 0 0 1 False Graphics_new) \<noteq>
       mCommandQueue Graphics_new"
proof -
  have ne: "(0::real) \<noteq> 1" by simp
  show ?thesis
    by (simp add: arc_partial_turn [OF ne one_less_PI2 arcExtrema_zero] pushCommand_def
        GraphicsCommand_new_def Graphics_new_def)
qed

text \<open>
  Claim C6, amended. For every centre, radius and direction, an \<^verbatim>\<open>arc\<close> call with equal
  start and end angle leaves the surface as it was: no command, the cursor unchanged. A
  call with radius zero and different angles raises no error and leaves the cursor
  unchanged, but it appends an \<^verbatim>\<open>ARC\<close> command and a \<^verbatim>\<open>BOUNDS\<close> command for the
  box that is the centre alone (and the \<^verbatim>\<open>MOVE_TO\<close> of a full turn).
\<close>

theorem arc_degenerate:
  "(startAngle = endAngle \<longrightarrow> arc gcp x y r startAngle endAngle acw g = g)
   \<and> (startAngle \<noteq> endAngle \<longrightarrow>
        mPosX (arc gcp x y 0 startAngle endAngle acw g) = mPosX g
      \<and> mPosY (arc gcp x y 0 startAngle endAngle acw g) = mPosY g
      \<and> mCommandQueue (arc gcp x y 0 startAngle endAngle acw g) =
          mCommandQueue g @
            (if \<bar>startAngle - endAngle\<bar> \<ge> PI2 then
               [\<lparr>cmd_type = ARC,
                  cmd_data = [Num x, Num y, Num 0, Num startAngle, Num (startAngle + PI2), Flag acw]\<rparr>,
                \<lparr>cmd_type = BOUNDS, cmd_data = [Num x, Num y, Num x, Num y]\<rparr>,
                \<lparr>cmd_type = MOVE_TO,
                  cmd_data = [Num (fst (gcp x y 0 (endAngle + pi * 0.5))),
                              Num (snd (gcp x y 0 (endAngle + pi * 0.5)))]\<rparr>]
             else
               [\<lparr>cmd_type = ARC,
                  cmd_data = [Num x, Num y, Num 0, Num startAngle, Num endAngle, Flag acw]\<rparr>,
                \<lparr>cmd_type = BOUNDS, cmd_data = [Num x, Num y, Num x, Num y]\<rparr>]))"
proof (cases "startAngle = endAngle")
  case True
  then show ?thesis by (simp add: arc_equal_angles)
next
  case ne: False
  show ?thesis
  proof (cases "\<bar>startAngle - endAngle\<bar> \<ge> PI2")
    case True
    then show ?thesis
      using ne by (simp add: arc_cursor arc_full_turn [OF ne True] pushCommand_def GraphicsCommand_new_def)
  next
    case False
    then show ?thesis
      using ne
      by (simp add: arc_cursor arc_partial_turn [OF ne False arcExtrema_zero] pushCommand_def
          GraphicsCommand_new_def)
  qed
qed

theorem arc_degenerate_witness:
  "(1::real) = 1 \<and> arc circumferencePoint 2 3 4 1 1 False (moveTo 7 8 Graphics_new) = moveTo 7 8 Graphics_new
   \<and> (0::real) \<noteq> 1
   \<and> mPosX (arc circumferencePoint 2 3 0 0 1 False (moveTo 7 8 Graphics_new)) = 7
   \<and> mPosY (arc circumferencePoint 2 3 0 0 1 False (moveTo 7 8 Graphics_new)) = 8
   \<and> mCommandQueue (arc circumferencePoint 2 3 0 0 1 False (moveTo 7 8 Graphics_new)) =
       [\<lparr>cmd_type = MOVE_TO, cmd_data = [Num 7, Num 8]\<rparr>,
        \<lparr>cmd_type = ARC, cmd_data = [Num 2, Num 3, Num 0, Num 0, Num 1, Flag False]\<rparr>,
        \<lparr>cmd_type = BOUNDS, cmd_data = [Num 2, Num 3, Num 2, Num 3]\<rparr>]"
  using arc_degenerate [where startAngle = 1 and endAngle = 1 and gcp = circumferencePoint
        and x = 2 and y = 3 and r = 4 and acw = False and g = "moveTo 7 8 Graphics_new"]
    arc_degenerate [where startAngle = 0 and endAngle = 1 and gcp = circumferencePoint
        and x = 2 and y = 3 and r = 4 and acw = False and g = "moveTo 7 8 Graphics_new"]
    one_less_PI2
  by (simp add: builder_defs)

text \<open>
  Claim C8, as the code has it. \<^verbatim>\<open>arc\<close> pushes the \<^verbatim>\<open>ARC\<close> command first and the
  \<^verbatim>\<open>BOUNDS\<close> command after it, like every other drawing call of the builder; the order
  \<^verbatim>\<open>BOUNDS\<close>, \<^verbatim>\<open>ARC\<close> of the claim is not what \<^verbatim>\<open>arc(0, 0, 1, 0, 1)\<close> leaves.
\<close>

theorem arc_order_counterexample:
  "map cmd_type (mCommandQueue (arc circumferencePoint 0 0 1 0 1 False Graphics_new)) = [ARC, BOUNDS]
   \<and> map cmd_type (mCommandQueue (arc circumferencePoint 0 0 1 0 1 False Graphics_new)) \<noteq> [BOUNDS, ARC]"
proof -
  have ne: "(0::real) \<noteq> 1" by simp
  show ?thesis
    using arc_types [OF ne, where g = Graphics_new and gcp = circumferencePoint and x = 0 and y = 0
        and r = 1 and acw = False] one_less_PI2
    by (simp add: Graphics_new_def)
qed

text \<open>
  Claim C8, amended. For every \<^verbatim>\<open>arc\<close> call with different start and end angle, the log
  keeps what it held and gains the \<^verbatim>\<open>ARC\<close> command first and the \<^verbatim>\<open>BOUNDS\<close>
  command after it, followed by a \<^verbatim>\<open>MOVE_TO\<close> when the angles span a full turn.
\<close>

theorem arc_pushes_ARC_then_BOUNDS:
  assumes "startAngle \<noteq> endAngle"
  shows "take (length (mCommandQueue g))
           (mCommandQueue (arc gcp x y r startAngle endAngle acw g)) = mCommandQueue g
       \<and> map cmd_type (drop (length (mCommandQueue g))
           (mCommandQueue (arc gcp x y r startAngle endAngle acw g))) =
           (if \<bar>startAngle - endAngle\<bar> \<ge> PI2 then [ARC, BOUNDS, MOVE_TO] else [ARC, BOUNDS])"
  using assms by (rule arc_types)

theorem arc_pushes_ARC_then_BOUNDS_witness:
  "(0::real) \<noteq> PI2
   \<and> map cmd_type (mCommandQueue (arc circumferencePoint 5 5 2 0 PI2 False (moveTo 1 1 Graphics_new))) =
       [MOVE_TO, ARC, BOUNDS, MOVE_TO]"
proof -
  have ne: "(0::real) \<noteq> PI2"
    using PI2_pos by simp
  have q: "mCommandQueue (moveTo 1 1 Graphics_new) = [\<lparr>cmd_type = MOVE_TO, cmd_data = [Num 1, Num 1]\<rparr>]"
    by (simp add: builder_defs)
  have "mCommandQueue (arc circumferencePoint 5 5 2 0 PI2 False (moveTo 1 1 Graphics_new)) =
      take 1 (mCommandQueue (arc circumferencePoint 5 5 2 0 PI2 False (moveTo 1 1 Graphics_new))) @
      drop 1 (mCommandQueue (arc circumferencePoint 5 5 2 0 PI2 False (moveTo 1 1 Graphics_new)))"
    by simp
  then have "map cmd_type (mCommandQueue (arc circumferencePoint 5 5 2 0 PI2 False (moveTo 1 1 Graphics_new))) =
      map cmd_type (take 1 (mCommandQueue (arc circumferencePoint 5 5 2 0 PI2 False (moveTo 1 1 Graphics_new)))) @
      map cmd_type (drop 1 (mCommandQueue (arc circumferencePoint 5 5 2 0 PI2 False (moveTo 1 1 Graphics_new))))"
    by (metis map_append)
  then show ?thesis
    using ne arc_pushes_ARC_then_BOUNDS [OF ne, where g = "moveTo 1 1 Graphics_new"
        and gcp = circumferencePoint and x = 5 and y = 5 and r = 2 and acw = False]
    by (simp add: q)
qed

text \<open>
  Claim C10. No call of \<^verbatim>\<open>arc\<close> changes the cursor, also when the angles span a full turn
  and the log ends with the \<^verbatim>\<open>MOVE_TO\<close> command that \<^verbatim>\<open>arc\<close> appends: that command is
  pushed without touching \<^verbatim>\<open>mPosX\<close> and \<^verbatim>\<open>mPosY\<close>. A \<^verbatim>\<open>bezierCurveTo\<close> that
  follows therefore computes its ranges from the cursor that preceded the \<^verbatim>\<open>arc\<close> call.
\<close>

theorem arc_keeps_cursor:
  "mPosX (arc gcp x y r startAngle endAngle acw g) = mPosX g
   \<and> mPosY (arc gcp x y r startAngle endAngle acw g) = mPosY g
   \<and> mCommandQueue (bezierCurveTo cp1x cp1y cp2x cp2y tx ty
        (arc gcp x y r startAngle endAngle acw g)) =
       mCommandQueue (arc gcp x y r startAngle endAngle acw g) @
         [\<lparr>cmd_type = BEZIER_CURVE_TO,
            cmd_data = [Num cp1x, Num cp1y, Num cp2x, Num cp2y, Num tx, Num ty]\<rparr>,
          \<lparr>cmd_type = BOUNDS,
            cmd_data = [Num (fst (bezierRange (mPosX g) cp1x cp2x tx)),
                        Num (fst (bezierRange (mPosY g) cp1y cp2y ty)),
                        Num (snd (bezierRange (mPosX g) cp1x cp2x tx)),
                        Num (snd (bezierRange (mPosY g) cp1y cp2y ty))]\<rparr>]
   \<and> (\<bar>startAngle - endAngle\<bar> \<ge> PI2 \<longrightarrow>
        last (mCommandQueue (arc gcp x y r startAngle endAngle acw g)) =
          \<lparr>cmd_type = MOVE_TO,
            cmd_data = [Num (fst (gcp x y r (endAngle + pi * 0.5))),
                        Num (snd (gcp x y r (endAngle + pi * 0.5)))]\<rparr>)"
proof -
  have cur: "mPosX (arc gcp x y r startAngle endAngle acw g) = mPosX g"
    "mPosY (arc gcp x y r startAngle endAngle acw g) = mPosY g"
    using arc_cursor by simp_all
  have bez: "mCommandQueue (bezierCurveTo cp1x cp1y cp2x cp2y tx ty
        (arc gcp x y r startAngle endAngle acw g)) =
       mCommandQueue (arc gcp x y r startAngle endAngle acw g) @
         [\<lparr>cmd_type = BEZIER_CURVE_TO,
            cmd_data = [Num cp1x, Num cp1y, Num cp2x, Num cp2y, Num tx, Num ty]\<rparr>,
          \<lparr>cmd_type = BOUNDS,
            cmd_data = [Num (fst (bezierRange (mPosX g) cp1x cp2x tx)),
                        Num (fst (bezierRange (mPosY g) cp1y cp2y ty)),
                        Num (snd (bezierRange (mPosX g) cp1x cp2x tx)),
                        Num (snd (bezierRange (mPosY g) cp1y cp2y ty))]\<rparr>]"
    unfolding bezierCurveTo_def Let_def cur
    by (simp add: pushCommand_def GraphicsCommand_new_def)
  have mv: "\<bar>startAngle - endAngle\<bar> \<ge> PI2 \<longrightarrow>
        last (mCommandQueue (arc gcp x y r startAngle endAngle acw g)) =
          \<lparr>cmd_type = MOVE_TO,
            cmd_data = [Num (fst (gcp x y r (endAngle + pi * 0.5))),
                        Num (snd (gcp x y r (endAngle + pi * 0.5)))]\<rparr>"
  proof
    assume full: "\<bar>startAngle - endAngle\<bar> \<ge> PI2"
    then have ne: "startAngle \<noteq> endAngle"
      using PI2_pos by auto
    show "last (mCommandQueue (arc gcp x y r startAngle endAngle acw g)) =
          \<lparr>cmd_type = MOVE_TO,
            cmd_data = [Num (fst (gcp x y r (endAngle + pi * 0.5))),
                        Num (snd (gcp x y r (endAngle + pi * 0.5)))]\<rparr>"
      by (simp add: arc_full_turn [OF ne full] pushCommand_def GraphicsCommand_new_def)
  qed
  show ?thesis
    using cur bez mv by blast
qed

theorem arc_keeps_cursor_witness:
  "\<bar>0 - PI2\<bar> \<ge> PI2
   \<and> mPosX (arc circumferencePoint 5 5 2 0 PI2 False (moveTo 1 1 Graphics_new)) = 1
   \<and> mPosY (arc circumferencePoint 5 5 2 0 PI2 False (moveTo 1 1 Graphics_new)) = 1
   \<and> last (mCommandQueue (arc circumferencePoint 5 5 2 0 PI2 False (moveTo 1 1 Graphics_new))) =
        \<lparr>cmd_type = MOVE_TO,
          cmd_data = [Num (fst (circumferencePoint 5 5 2 (PI2 + pi * 0.5))),
                      Num (snd (circumferencePoint 5 5 2 (PI2 + pi * 0.5)))]\<rparr>"
proof -
  have h: "\<bar>0 - PI2\<bar> \<ge> PI2"
    by simp
  show ?thesis
    using h arc_keeps_cursor [where startAngle = 0 and endAngle = PI2 and gcp = circumferencePoint
        and x = 5 and y = 5 and r = 2 and acw = False and g = "moveTo 1 1 Graphics_new"]
    by (simp add: builder_defs)
qed

subsection \<open>Line styles in the bounds pass\<close>

text \<open>
  Claim C5, as the code has it. The \<^verbatim>\<open>LINE_STYLE\<close> case sets the multiplier to 1 for a
  miter joint and has no other branch, so a round joint after a miter joint in the same
  path leaves the multiplier at 1, not at one half.
\<close>

theorem lineMult_round_after_miter_counterexample:
  "map_option (\<lambda>s. lineMult (snd s))
     (boundsLoop
        (mCommandQueue
           (lineStyle 2 0 1 CapsStyle_ROUND JointStyle_ROUND 3
              (lineStyle 4 0 1 CapsStyle_ROUND JointStyle_MITER 3 Graphics_new)))
        (Rectangle_new, GraphicsPath_new)) = Some 1
   \<and> map_option (\<lambda>s. lineMult (snd s))
     (boundsLoop
        (mCommandQueue
           (lineStyle 2 0 1 CapsStyle_ROUND JointStyle_ROUND 3
              (lineStyle 4 0 1 CapsStyle_ROUND JointStyle_MITER 3 Graphics_new)))
        (Rectangle_new, GraphicsPath_new)) \<noteq> Some (1 / 2)"
  by (simp add: builder_defs pass_defs Let_def JointStyle_MITER_def JointStyle_ROUND_def)

lemma boundsStep_BEGIN_PATH:
  assumes "boundsStep (rb, path) cmd = Some (rb', path')" and "cmd_type cmd = BEGIN_PATH"
  shows "path' = GraphicsPath_new"
  using assms by (auto simp: boundsStep_def)

text \<open>
  No command but \<^verbatim>\<open>BEGIN_PATH\<close> and a \<^verbatim>\<open>LINE_STYLE\<close> with a miter joint changes the
  multiplier: \<^verbatim>\<open>BOUNDS\<close>, \<^verbatim>\<open>FILL\<close>, \<^verbatim>\<open>STROKE\<close> and the commands that the pass
  skips keep it.
\<close>

lemma boundsStep_lineMult:
  assumes "boundsStep (rb, path) cmd = Some (rb', path')" and "cmd_type cmd \<noteq> BEGIN_PATH"
  shows "lineMult path' =
           (if cmd_type cmd = LINE_STYLE \<and> getString cmd 4 = Some JointStyle_MITER then 1
            else lineMult path)"
  using assms
  by (cases "cmd_type cmd")
    (auto simp: boundsStep_def Let_def split: option.splits if_splits)

lemma boundsLoop_lineMult:
  assumes "boundsLoop cmds (rb, path) = Some (rb', path')"
    and "BEGIN_PATH \<notin> cmd_type ` set cmds"
  shows "lineMult path' =
           (if \<exists>c \<in> set cmds. cmd_type c = LINE_STYLE \<and> getString c 4 = Some JointStyle_MITER
            then 1 else lineMult path)"
  using assms
proof (induction cmds arbitrary: rb path)
  case Nil
  then show ?case by simp
next
  case (Cons c cmds)
  from Cons.prems(1) obtain rb1 path1 where
    step: "boundsStep (rb, path) c = Some (rb1, path1)"
    and rest: "boundsLoop cmds (rb1, path1) = Some (rb', path')"
    by (auto split: option.splits)
  have c: "cmd_type c \<noteq> BEGIN_PATH" and cs: "BEGIN_PATH \<notin> cmd_type ` set cmds"
    using Cons.prems(2) by auto
  have one: "lineMult path1 =
      (if cmd_type c = LINE_STYLE \<and> getString c 4 = Some JointStyle_MITER then 1
       else lineMult path)"
    by (rule boundsStep_lineMult [OF step c])
  have more: "lineMult path' =
      (if \<exists>c \<in> set cmds. cmd_type c = LINE_STYLE \<and> getString c 4 = Some JointStyle_MITER
       then 1 else lineMult path1)"
    by (rule Cons.IH [OF rest cs])
  show ?case
    using one more by auto
qed

text \<open>
  Claim C5, amended. The log is \<open>pre @ cmds @ [cmd]\<close>: \<open>cmd\<close> is a \<^verbatim>\<open>LINE_STYLE\<close>
  command, \<open>cmds\<close> are the commands of its path before it (none of them is
  \<^verbatim>\<open>BEGIN_PATH\<close>), and \<open>pre\<close> is empty or ends with the \<^verbatim>\<open>BEGIN_PATH\<close> that opens
  the path. After the bounds pass has processed \<open>cmd\<close>, the multiplier of the accumulator is
  1 if the joint argument of \<open>cmd\<close>, or of a \<^verbatim>\<open>LINE_STYLE\<close> command before it in the same
  path, denotes miter. Otherwise it is what it was when the path began: one half after a
  \<^verbatim>\<open>BEGIN_PATH\<close>, which installs a new accumulator, and the multiplier of the initial
  accumulator (one half in \<^verbatim>\<open>onGetLocalBounds\<close>) when no \<^verbatim>\<open>BEGIN_PATH\<close> precedes. So
  a round joint after a miter joint in the same path leaves the multiplier at 1, whatever
  commands stand between them.
\<close>

theorem lineMult_after_LINE_STYLE:
  assumes run: "boundsLoop (pre @ cmds @ [cmd]) (rb, path) = Some (rb', path')"
    and ls: "cmd_type cmd = LINE_STYLE"
    and seg: "BEGIN_PATH \<notin> cmd_type ` set cmds"
    and pre: "pre = [] \<or> cmd_type (last pre) = BEGIN_PATH"
  shows "lineMult path' =
           (if getString cmd 4 = Some JointStyle_MITER
               \<or> (\<exists>c \<in> set cmds. cmd_type c = LINE_STYLE \<and> getString c 4 = Some JointStyle_MITER)
            then 1
            else if pre = [] then lineMult path else 1 / 2)
       \<and> lineMult GraphicsPath_new = 1 / 2"
proof -
  have new: "lineMult GraphicsPath_new = 1 / 2"
    by (simp add: GraphicsPath_new_def)
  have seg': "BEGIN_PATH \<notin> cmd_type ` set (cmds @ [cmd])"
    using seg ls by auto
  have ex: "(\<exists>c \<in> set (cmds @ [cmd]). cmd_type c = LINE_STYLE \<and> getString c 4 = Some JointStyle_MITER)
      \<longleftrightarrow> getString cmd 4 = Some JointStyle_MITER
        \<or> (\<exists>c \<in> set cmds. cmd_type c = LINE_STYLE \<and> getString c 4 = Some JointStyle_MITER)"
    using ls by auto
  obtain rb1 path1 where
    p1: "boundsLoop pre (rb, path) = Some (rb1, path1)"
    and p2: "boundsLoop (cmds @ [cmd]) (rb1, path1) = Some (rb', path')"
    using run by (auto simp: boundsLoop_append split: option.splits)
  have tail: "lineMult path' =
      (if getString cmd 4 = Some JointStyle_MITER
          \<or> (\<exists>c \<in> set cmds. cmd_type c = LINE_STYLE \<and> getString c 4 = Some JointStyle_MITER)
       then 1 else lineMult path1)"
    using boundsLoop_lineMult [OF p2 seg'] unfolding ex .
  have start: "lineMult path1 = (if pre = [] then lineMult path else 1 / 2)"
  proof (cases "pre = []")
    case True
    then show ?thesis using p1 by simp
  next
    case False
    then obtain pre' b where pre_eq: "pre = pre' @ [b]"
      by (metis append_butlast_last_id)
    have b: "cmd_type b = BEGIN_PATH"
      using pre False by (simp add: pre_eq)
    obtain s0 where "boundsStep s0 b = Some (rb1, path1)"
      using p1 unfolding pre_eq by (auto simp: boundsLoop_append split: option.splits)
    then have "path1 = GraphicsPath_new"
      using boundsStep_BEGIN_PATH [of "fst s0" "snd s0" b rb1 path1] b by simp
    then show ?thesis
      using False new by simp
  qed
  have "lineMult path' =
           (if getString cmd 4 = Some JointStyle_MITER
               \<or> (\<exists>c \<in> set cmds. cmd_type c = LINE_STYLE \<and> getString c 4 = Some JointStyle_MITER)
            then 1
            else if pre = [] then lineMult path else 1 / 2)"
    by (simp only: tail start)
  from this new show ?thesis
    by (rule conjI)
qed

theorem lineMult_after_LINE_STYLE_witness:
  "boundsLoop
     ([\<lparr>cmd_type = BEGIN_PATH, cmd_data = []\<rparr>] @
      [\<lparr>cmd_type = LINE_STYLE,
         cmd_data = [Num 4, Num 0, Num 1, Str CapsStyle_ROUND, Str JointStyle_MITER, Num 3]\<rparr>,
       \<lparr>cmd_type = BOUNDS, cmd_data = [Num 0, Num 0, Num 10, Num 0]\<rparr>,
       \<lparr>cmd_type = STROKE, cmd_data = []\<rparr>] @
      [\<lparr>cmd_type = LINE_STYLE,
         cmd_data = [Num 2, Num 0, Num 1, Str CapsStyle_ROUND, Str JointStyle_ROUND, Num 3]\<rparr>])
     (Rectangle_new, GraphicsPath_new) =
   Some (Rectangle_new,
     \<lparr>bounds = Some \<lparr>rect_x = - 4, rect_y = - 4, rect_width = 18, rect_height = 8\<rparr>,
      points = [0, 0, 10, 0], maxLineWidth = 4, lastLineWidth = 2, lineMult = 1\<rparr>)
   \<and> getString \<lparr>cmd_type = LINE_STYLE,
         cmd_data = [Num 2, Num 0, Num 1, Str CapsStyle_ROUND, Str JointStyle_ROUND, Num 3]\<rparr> 4
       \<noteq> Some JointStyle_MITER
   \<and> lineMult
       \<lparr>bounds = Some \<lparr>rect_x = - 4, rect_y = - 4, rect_width = 18, rect_height = 8\<rparr>,
        points = [0, 0, 10, 0], maxLineWidth = 4, lastLineWidth = 2, lineMult = 1\<rparr> = 1"
proof -
  let ?pre = "[\<lparr>cmd_type = BEGIN_PATH, cmd_data = []\<rparr>]"
  let ?cmds = "[\<lparr>cmd_type = LINE_STYLE,
         cmd_data = [Num 4, Num 0, Num 1, Str CapsStyle_ROUND, Str JointStyle_MITER, Num 3]\<rparr>,
       \<lparr>cmd_type = BOUNDS, cmd_data = [Num 0, Num 0, Num 10, Num 0]\<rparr>,
       \<lparr>cmd_type = STROKE, cmd_data = []\<rparr>]"
  let ?cmd = "\<lparr>cmd_type = LINE_STYLE,
         cmd_data = [Num 2, Num 0, Num 1, Str CapsStyle_ROUND, Str JointStyle_ROUND, Num 3]\<rparr>"
  let ?path = "\<lparr>bounds = Some \<lparr>rect_x = - 4, rect_y = - 4, rect_width = 18, rect_height = 8\<rparr>,
      points = [0, 0, 10, 0], maxLineWidth = 4, lastLineWidth = 2, lineMult = 1\<rparr>"
  have run: "boundsLoop (?pre @ ?cmds @ [?cmd]) (Rectangle_new, GraphicsPath_new) =
      Some (Rectangle_new, ?path)"
    by (simp add: pass_defs Let_def JointStyle_MITER_def JointStyle_ROUND_def)
  have ls: "cmd_type ?cmd = LINE_STYLE"
    by simp
  have seg: "BEGIN_PATH \<notin> cmd_type ` set ?cmds"
    by simp
  have pre: "?pre = [] \<or> cmd_type (last ?pre) = BEGIN_PATH"
    by simp
  have j: "getString ?cmd 4 \<noteq> Some JointStyle_MITER"
    by (simp add: getString_def JointStyle_MITER_def JointStyle_ROUND_def)
  show ?thesis
    using run j lineMult_after_LINE_STYLE [OF run ls seg pre]
    by simp
qed

subsection \<open>Cubic curves\<close>

text \<open>
  \<^verbatim>\<open>__bezierDot\<close> has fifteen rounded operations. For a parameter strictly between 0 and
  1 and control values of magnitude at most \<open>P\<close>, its value is within
  \<open>128 * (pow2 (- 53) * P + pow2 (- 1075))\<close> of the exact value of the polynomial.
\<close>

lemma bezierDot_near:
  assumes x: "0 < x" "x < 1" and p: "\<bar>p0\<bar> \<le> P" "\<bar>p1\<bar> \<le> P" "\<bar>p2\<bar> \<le> P" "\<bar>p3\<bar> \<le> P"
  shows "\<bar>bezierDot p0 p1 p2 p3 x -
           (p0 * (1 - x) * (1 - x) * (1 - x) + 3 * p1 * x * (1 - x) * (1 - x)
            + 3 * p2 * x * x * (1 - x) + p3 * x * x * x)\<bar>
         \<le> 128 * (pow2 (- 53) * P + pow2 (- 1075))"
proof -
  define y0 where "y0 = 1 - x"
  define y where "y = fsub 1 x"
  define n where "n = pow2 (- 1075)"
  define e where "e = pow2 (- 53) * P + n"
  have d: "pow2 (- 53) = 1 / 9007199254740992" by (simp add: pow2_def)
  have nd: "pow2 (- 1075) \<le> pow2 (- 53)" by (rule pow2_mono) simp
  have n0: "0 \<le> n" by (simp add: n_def)
  have P0: "0 \<le> P" using p(1) by linarith
  have y0: "0 < y0" "y0 < 1" using x by (simp_all add: y0_def)
  have y01: "\<bar>y0\<bar> \<le> 1" using y0 by simp
  have x1: "\<bar>x\<bar> \<le> 1" using x by simp
  have xe: "\<bar>x - x\<bar> \<le> 0" by simp
  have pe0: "\<bar>p0 - p0\<bar> \<le> 0 * e" and pe3: "\<bar>p3 - p3\<bar> \<le> 0 * e" by simp_all
  have y1: "\<bar>y\<bar> \<le> 1"
    using fl_nonneg [of y0] fl_le_1 [OF y0] y0 by (simp add: y_def fsub_def y0_def)
  have "\<bar>fl y0 - y0\<bar> \<le> pow2 (- 53) * \<bar>y0\<bar> + pow2 (- 1075)" by (rule fl_near)
  also have "\<dots> \<le> pow2 (- 53) * 1 + pow2 (- 1075)"
    using y01 by (simp add: mult_left_mono)
  finally have ye: "\<bar>y - y0\<bar> \<le> 2 * pow2 (- 53)"
    using nd by (simp add: y_def fsub_def y0_def)
  have b0m: "\<bar>3 * p1\<bar> \<le> 3 * P" and c0m: "\<bar>3 * p2\<bar> \<le> 3 * P"
    using p by simp_all
  have "\<bar>fl (3 * p1) - 3 * p1\<bar> \<le> pow2 (- 53) * \<bar>3 * p1\<bar> + pow2 (- 1075)" by (rule fl_near)
  then have b0: "\<bar>fmul 3 p1 - 3 * p1\<bar> \<le> 3 * e"
    using b0m n0 by (simp add: fmul_def e_def d n_def [symmetric] del: abs_mult; linarith?)
  have "\<bar>fl (3 * p2) - 3 * p2\<bar> \<le> pow2 (- 53) * \<bar>3 * p2\<bar> + pow2 (- 1075)" by (rule fl_near)
  then have c0: "\<bar>fmul 3 p2 - 3 * p2\<bar> \<le> 3 * e"
    using c0m n0 by (simp add: fmul_def e_def d n_def [symmetric] del: abs_mult; linarith?)
  have "\<bar>fmul (p0) y - p0 * y0\<bar> \<le>
      pow2 (- 53) * (P + 0 * e) + pow2 (- 1075) + 0 * e + P * (2 * pow2 (- 53))"
    by (rule fmul_err [OF pe0 ye p(1) y1])
  then have a1: "\<bar>fmul (p0) y - p0 * y0\<bar> \<le> 4 * e"
    using P0 n0 by (simp add: e_def d n_def [symmetric] add_divide_distrib; linarith?)
  have a1m: "\<bar>p0 * y0\<bar> \<le> P"
    by (rule abs_mult_le [OF p(1) y01])
  have "\<bar>fmul (fmul (p0) y) y - p0 * y0 * y0\<bar> \<le>
      pow2 (- 53) * (P + 4 * e) + pow2 (- 1075) + 4 * e + P * (2 * pow2 (- 53))"
    by (rule fmul_err [OF a1 ye a1m y1])
  then have a2: "\<bar>fmul (fmul (p0) y) y - p0 * y0 * y0\<bar> \<le> 8 * e"
    using P0 n0 by (simp add: e_def d n_def [symmetric] add_divide_distrib; linarith?)
  have a2m: "\<bar>p0 * y0 * y0\<bar> \<le> P"
    by (rule abs_mult_le [OF a1m y01])
  have "\<bar>fmul (fmul (fmul (p0) y) y) y - p0 * y0 * y0 * y0\<bar> \<le>
      pow2 (- 53) * (P + 8 * e) + pow2 (- 1075) + 8 * e + P * (2 * pow2 (- 53))"
    by (rule fmul_err [OF a2 ye a2m y1])
  then have a3: "\<bar>fmul (fmul (fmul (p0) y) y) y - p0 * y0 * y0 * y0\<bar> \<le> 12 * e"
    using P0 n0 by (simp add: e_def d n_def [symmetric] add_divide_distrib; linarith?)
  have a3m: "\<bar>p0 * y0 * y0 * y0\<bar> \<le> P"
    by (rule abs_mult_le [OF a2m y01])
  have "\<bar>fmul (fmul 3 p1) x - 3 * p1 * x\<bar> \<le>
      pow2 (- 53) * (3 * P + 3 * e) + pow2 (- 1075) + 3 * e + 3 * P * (0)"
    by (rule fmul_err [OF b0 xe b0m x1])
  then have b1: "\<bar>fmul (fmul 3 p1) x - 3 * p1 * x\<bar> \<le> 7 * e"
    using P0 n0 by (simp add: e_def d n_def [symmetric] add_divide_distrib; linarith?)
  have b1m: "\<bar>3 * p1 * x\<bar> \<le> 3 * P"
    by (rule abs_mult_le [OF b0m x1])
  have "\<bar>fmul (fmul (fmul 3 p1) x) y - 3 * p1 * x * y0\<bar> \<le>
      pow2 (- 53) * (3 * P + 7 * e) + pow2 (- 1075) + 7 * e + 3 * P * (2 * pow2 (- 53))"
    by (rule fmul_err [OF b1 ye b1m y1])
  then have b2: "\<bar>fmul (fmul (fmul 3 p1) x) y - 3 * p1 * x * y0\<bar> \<le> 17 * e"
    using P0 n0 by (simp add: e_def d n_def [symmetric] add_divide_distrib; linarith?)
  have b2m: "\<bar>3 * p1 * x * y0\<bar> \<le> 3 * P"
    by (rule abs_mult_le [OF b1m y01])
  have "\<bar>fmul (fmul (fmul (fmul 3 p1) x) y) y - 3 * p1 * x * y0 * y0\<bar> \<le>
      pow2 (- 53) * (3 * P + 17 * e) + pow2 (- 1075) + 17 * e + 3 * P * (2 * pow2 (- 53))"
    by (rule fmul_err [OF b2 ye b2m y1])
  then have b3: "\<bar>fmul (fmul (fmul (fmul 3 p1) x) y) y - 3 * p1 * x * y0 * y0\<bar> \<le> 27 * e"
    using P0 n0 by (simp add: e_def d n_def [symmetric] add_divide_distrib; linarith?)
  have b3m: "\<bar>3 * p1 * x * y0 * y0\<bar> \<le> 3 * P"
    by (rule abs_mult_le [OF b2m y01])
  have "\<bar>fmul (fmul 3 p2) x - 3 * p2 * x\<bar> \<le>
      pow2 (- 53) * (3 * P + 3 * e) + pow2 (- 1075) + 3 * e + 3 * P * (0)"
    by (rule fmul_err [OF c0 xe c0m x1])
  then have c1: "\<bar>fmul (fmul 3 p2) x - 3 * p2 * x\<bar> \<le> 7 * e"
    using P0 n0 by (simp add: e_def d n_def [symmetric] add_divide_distrib; linarith?)
  have c1m: "\<bar>3 * p2 * x\<bar> \<le> 3 * P"
    by (rule abs_mult_le [OF c0m x1])
  have "\<bar>fmul (fmul (fmul 3 p2) x) x - 3 * p2 * x * x\<bar> \<le>
      pow2 (- 53) * (3 * P + 7 * e) + pow2 (- 1075) + 7 * e + 3 * P * (0)"
    by (rule fmul_err [OF c1 xe c1m x1])
  then have c2: "\<bar>fmul (fmul (fmul 3 p2) x) x - 3 * p2 * x * x\<bar> \<le> 11 * e"
    using P0 n0 by (simp add: e_def d n_def [symmetric] add_divide_distrib; linarith?)
  have c2m: "\<bar>3 * p2 * x * x\<bar> \<le> 3 * P"
    by (rule abs_mult_le [OF c1m x1])
  have "\<bar>fmul (fmul (fmul (fmul 3 p2) x) x) y - 3 * p2 * x * x * y0\<bar> \<le>
      pow2 (- 53) * (3 * P + 11 * e) + pow2 (- 1075) + 11 * e + 3 * P * (2 * pow2 (- 53))"
    by (rule fmul_err [OF c2 ye c2m y1])
  then have c3: "\<bar>fmul (fmul (fmul (fmul 3 p2) x) x) y - 3 * p2 * x * x * y0\<bar> \<le> 21 * e"
    using P0 n0 by (simp add: e_def d n_def [symmetric] add_divide_distrib; linarith?)
  have c3m: "\<bar>3 * p2 * x * x * y0\<bar> \<le> 3 * P"
    by (rule abs_mult_le [OF c2m y01])
  have "\<bar>fmul (p3) x - p3 * x\<bar> \<le>
      pow2 (- 53) * (P + 0 * e) + pow2 (- 1075) + 0 * e + P * (0)"
    by (rule fmul_err [OF pe3 xe p(4) x1])
  then have d1: "\<bar>fmul (p3) x - p3 * x\<bar> \<le> 2 * e"
    using P0 n0 by (simp add: e_def d n_def [symmetric] add_divide_distrib; linarith?)
  have d1m: "\<bar>p3 * x\<bar> \<le> P"
    by (rule abs_mult_le [OF p(4) x1])
  have "\<bar>fmul (fmul (p3) x) x - p3 * x * x\<bar> \<le>
      pow2 (- 53) * (P + 2 * e) + pow2 (- 1075) + 2 * e + P * (0)"
    by (rule fmul_err [OF d1 xe d1m x1])
  then have d2: "\<bar>fmul (fmul (p3) x) x - p3 * x * x\<bar> \<le> 4 * e"
    using P0 n0 by (simp add: e_def d n_def [symmetric] add_divide_distrib; linarith?)
  have d2m: "\<bar>p3 * x * x\<bar> \<le> P"
    by (rule abs_mult_le [OF d1m x1])
  have "\<bar>fmul (fmul (fmul (p3) x) x) x - p3 * x * x * x\<bar> \<le>
      pow2 (- 53) * (P + 4 * e) + pow2 (- 1075) + 4 * e + P * (0)"
    by (rule fmul_err [OF d2 xe d2m x1])
  then have d3: "\<bar>fmul (fmul (fmul (p3) x) x) x - p3 * x * x * x\<bar> \<le> 6 * e"
    using P0 n0 by (simp add: e_def d n_def [symmetric] add_divide_distrib; linarith?)
  have d3m: "\<bar>p3 * x * x * x\<bar> \<le> P"
    by (rule abs_mult_le [OF d2m x1])
  have "\<bar>fadd (fmul (fmul (fmul (p0) y) y) y) (fmul (fmul (fmul (fmul 3 p1) x) y) y) - (p0 * y0 * y0 * y0 + 3 * p1 * x * y0 * y0)\<bar> \<le>
      pow2 (- 53) * (P + 12 * e + 3 * P + 27 * e) + pow2 (- 1075) + 12 * e + 27 * e"
    by (rule fadd_err [OF a3 b3 a3m b3m])
  then have s1: "\<bar>fadd (fmul (fmul (fmul (p0) y) y) y) (fmul (fmul (fmul (fmul 3 p1) x) y) y) - (p0 * y0 * y0 * y0 + 3 * p1 * x * y0 * y0)\<bar> \<le> 44 * e"
    using P0 n0 by (simp add: e_def d n_def [symmetric] add_divide_distrib; linarith?)
  have s1m: "\<bar>p0 * y0 * y0 * y0 + 3 * p1 * x * y0 * y0\<bar> \<le> 4 * P"
    using a3m b3m by linarith
  have "\<bar>fadd (fadd (fmul (fmul (fmul (p0) y) y) y) (fmul (fmul (fmul (fmul 3 p1) x) y) y)) (fmul (fmul (fmul (fmul 3 p2) x) x) y) - (p0 * y0 * y0 * y0 + 3 * p1 * x * y0 * y0 + 3 * p2 * x * x * y0)\<bar> \<le>
      pow2 (- 53) * (4 * P + 44 * e + 3 * P + 21 * e) + pow2 (- 1075) + 44 * e + 21 * e"
    by (rule fadd_err [OF s1 c3 s1m c3m])
  then have s2: "\<bar>fadd (fadd (fmul (fmul (fmul (p0) y) y) y) (fmul (fmul (fmul (fmul 3 p1) x) y) y)) (fmul (fmul (fmul (fmul 3 p2) x) x) y) - (p0 * y0 * y0 * y0 + 3 * p1 * x * y0 * y0 + 3 * p2 * x * x * y0)\<bar> \<le> 73 * e"
    using P0 n0 by (simp add: e_def d n_def [symmetric] add_divide_distrib; linarith?)
  have s2m: "\<bar>p0 * y0 * y0 * y0 + 3 * p1 * x * y0 * y0 + 3 * p2 * x * x * y0\<bar> \<le> 7 * P"
    using s1m c3m by linarith
  have "\<bar>fadd (fadd (fadd (fmul (fmul (fmul (p0) y) y) y) (fmul (fmul (fmul (fmul 3 p1) x) y) y)) (fmul (fmul (fmul (fmul 3 p2) x) x) y)) (fmul (fmul (fmul (p3) x) x) x) - (p0 * y0 * y0 * y0 + 3 * p1 * x * y0 * y0 + 3 * p2 * x * x * y0 + p3 * x * x * x)\<bar> \<le>
      pow2 (- 53) * (7 * P + 73 * e + P + 6 * e) + pow2 (- 1075) + 73 * e + 6 * e"
    by (rule fadd_err [OF s2 d3 s2m d3m])
  then have s3: "\<bar>fadd (fadd (fadd (fmul (fmul (fmul (p0) y) y) y) (fmul (fmul (fmul (fmul 3 p1) x) y) y)) (fmul (fmul (fmul (fmul 3 p2) x) x) y)) (fmul (fmul (fmul (p3) x) x) x) - (p0 * y0 * y0 * y0 + 3 * p1 * x * y0 * y0 + 3 * p2 * x * x * y0 + p3 * x * x * x)\<bar> \<le> 88 * e"
    using P0 n0 by (simp add: e_def d n_def [symmetric] add_divide_distrib; linarith?)
  have s3m: "\<bar>p0 * y0 * y0 * y0 + 3 * p1 * x * y0 * y0 + 3 * p2 * x * x * y0 + p3 * x * x * x\<bar> \<le> 8 * P"
    using s2m d3m by linarith
  have e0: "0 \<le> e" using P0 n0 by (simp add: e_def)
  have "bezierDot p0 p1 p2 p3 x = fadd (fadd (fadd (fmul (fmul (fmul (p0) y) y) y) (fmul (fmul (fmul (fmul 3 p1) x) y) y)) (fmul (fmul (fmul (fmul 3 p2) x) x) y)) (fmul (fmul (fmul (p3) x) x) x)"
    by (simp add: bezierDot_def Let_def y_def)
  moreover have "p0 * (1 - x) * (1 - x) * (1 - x) + 3 * p1 * x * (1 - x) * (1 - x)
      + 3 * p2 * x * x * (1 - x) + p3 * x * x * x = p0 * y0 * y0 * y0 + 3 * p1 * x * y0 * y0 + 3 * p2 * x * x * y0 + p3 * x * x * x"
    by (simp add: y0_def)
  ultimately show ?thesis
    using s3 e0 unfolding e_def n_def by linarith
qed

text \<open>
  The exact polynomial is a convex combination of the four control values, so it lies
  between the end values when the inner control values do.
\<close>

lemma bernstein_lower:
  fixes t :: real
  assumes t: "0 < t" "t < 1" and m: "m \<le> p0" "m \<le> p1" "m \<le> p2" "m \<le> p3"
  shows "m \<le> p0 * (1 - t) * (1 - t) * (1 - t) + 3 * p1 * t * (1 - t) * (1 - t)
      + 3 * p2 * t * t * (1 - t) + p3 * t * t * t"
proof -
  have id: "p0 * (1 - t) * (1 - t) * (1 - t) + 3 * p1 * t * (1 - t) * (1 - t)
      + 3 * p2 * t * t * (1 - t) + p3 * t * t * t - m =
      (p0 - m) * (1 - t) * (1 - t) * (1 - t) + 3 * (p1 - m) * t * (1 - t) * (1 - t)
      + 3 * (p2 - m) * t * t * (1 - t) + (p3 - m) * t * t * t"
    by (simp add: algebra_simps)
  have "0 \<le> (p0 - m) * (1 - t) * (1 - t) * (1 - t) + 3 * (p1 - m) * t * (1 - t) * (1 - t)
      + 3 * (p2 - m) * t * t * (1 - t) + (p3 - m) * t * t * t"
    using t m by (intro add_nonneg_nonneg mult_nonneg_nonneg) simp_all
  then show ?thesis
    using id by linarith
qed

lemma bernstein_upper:
  fixes t :: real
  assumes t: "0 < t" "t < 1" and m: "p0 \<le> M" "p1 \<le> M" "p2 \<le> M" "p3 \<le> M"
  shows "p0 * (1 - t) * (1 - t) * (1 - t) + 3 * p1 * t * (1 - t) * (1 - t)
      + 3 * p2 * t * t * (1 - t) + p3 * t * t * t \<le> M"
proof -
  have id: "M - (p0 * (1 - t) * (1 - t) * (1 - t) + 3 * p1 * t * (1 - t) * (1 - t)
      + 3 * p2 * t * t * (1 - t) + p3 * t * t * t) =
      (M - p0) * (1 - t) * (1 - t) * (1 - t) + 3 * (M - p1) * t * (1 - t) * (1 - t)
      + 3 * (M - p2) * t * t * (1 - t) + (M - p3) * t * t * t"
    by (simp add: algebra_simps)
  have "0 \<le> (M - p0) * (1 - t) * (1 - t) * (1 - t) + 3 * (M - p1) * t * (1 - t) * (1 - t)
      + 3 * (M - p2) * t * t * (1 - t) + (M - p3) * t * t * t"
    using t m by (intro add_nonneg_nonneg mult_nonneg_nonneg) simp_all
  then show ?thesis
    using id by linarith
qed

lemma rounding_bound: "128 * (pow2 (- 53) * P + pow2 (- 1075)) = pow2 (- 46) * P + pow2 (- 1068)"
proof -
  have "128 * pow2 (- 53) = pow2 (- 46)"
    using pow2_add [of 7 "- 53"] by (simp add: pow2_def [of 7])
  moreover have "128 * pow2 (- 1075) = pow2 (- 1068)"
    using pow2_add [of 7 "- 1075"] by (simp add: pow2_def [of 7])
  ultimately show ?thesis
    by (simp add: algebra_simps)
qed

lemma bezierDot_between:
  assumes x: "0 < x" "x < 1"
    and p1: "min p0 p3 \<le> p1" "p1 \<le> max p0 p3"
    and p2: "min p0 p3 \<le> p2" "p2 \<le> max p0 p3"
  shows "min p0 p3 - (pow2 (- 46) * max \<bar>p0\<bar> \<bar>p3\<bar> + pow2 (- 1068)) \<le> bezierDot p0 p1 p2 p3 x
       \<and> bezierDot p0 p1 p2 p3 x \<le> max p0 p3 + (pow2 (- 46) * max \<bar>p0\<bar> \<bar>p3\<bar> + pow2 (- 1068))"
proof -
  let ?B = "p0 * (1 - x) * (1 - x) * (1 - x) + 3 * p1 * x * (1 - x) * (1 - x)
      + 3 * p2 * x * x * (1 - x) + p3 * x * x * x"
  let ?P = "max \<bar>p0\<bar> \<bar>p3\<bar>"
  have abs: "\<bar>p0\<bar> \<le> ?P" "\<bar>p1\<bar> \<le> ?P" "\<bar>p2\<bar> \<le> ?P" "\<bar>p3\<bar> \<le> ?P"
    using p1 p2 by (simp_all add: min_def max_def abs_if split: if_splits)
  have near: "\<bar>bezierDot p0 p1 p2 p3 x - ?B\<bar> \<le> pow2 (- 46) * ?P + pow2 (- 1068)"
    using bezierDot_near [OF x abs] by (simp only: rounding_bound)
  have lo: "min p0 p3 \<le> ?B"
    using p1 p2 by (intro bernstein_lower x) simp_all
  have hi: "?B \<le> max p0 p3"
    using p1 p2 by (intro bernstein_upper x) simp_all
  show ?thesis
    using near lo hi by linarith
qed

lemma bezierRange_segment:
  assumes p1: "min p0 p3 \<le> p1" "p1 \<le> max p0 p3"
    and p2: "min p0 p3 \<le> p2" "p2 \<le> max p0 p3"
  shows "min p0 p3 - (pow2 (- 46) * max \<bar>p0\<bar> \<bar>p3\<bar> + pow2 (- 1068)) \<le> fst (bezierRange p0 p1 p2 p3)
       \<and> fst (bezierRange p0 p1 p2 p3) \<le> min p0 p3
       \<and> max p0 p3 \<le> snd (bezierRange p0 p1 p2 p3)
       \<and> snd (bezierRange p0 p1 p2 p3) \<le> max p0 p3 + (pow2 (- 46) * max \<bar>p0\<bar> \<bar>p3\<bar> + pow2 (- 1068))"
proof -
  define E where "E = pow2 (- 46) * max \<bar>p0\<bar> \<bar>p3\<bar> + pow2 (- 1068)"
  define m where "m = min p0 p3"
  define M where "M = max p0 p3"
  define D where "D = bezierDot p0 p1 p2 p3"
  have E0: "0 \<le> E" by (simp add: E_def)
  have mM: "m \<le> M" by (simp add: m_def M_def)
  have key: "m - E \<le> D x \<and> D x \<le> M + E" if "0 < x \<and> x < 1" for x
    using bezierDot_between [OF _ _ p1 p2, of x] that by (simp add: E_def m_def M_def D_def)
  define upd where "upd = (\<lambda>x (mn, mx). if x > 0 \<and> x < 1 then (min (D x) mn, max (D x) mx) else (mn, mx))"
  have inv: "m - E \<le> fst (upd x (mn, mx)) \<and> fst (upd x (mn, mx)) \<le> m
      \<and> M \<le> snd (upd x (mn, mx)) \<and> snd (upd x (mn, mx)) \<le> M + E"
    if "m - E \<le> mn" "mn \<le> m" "M \<le> mx" "mx \<le> M + E" for x mn mx
    using that key [of x] by (auto simp: upd_def)
  have start: "m - E \<le> m" "m \<le> m" "M \<le> M" "M \<le> M + E"
    using E0 by simp_all
  let ?a = "fsub (fadd (fsub p2 (fmul 2 p1)) p0) (fadd (fsub p3 (fmul 2 p2)) p1)"
  let ?b = "fsub (fmul 2 (fsub p1 p0)) (fmul 2 (fsub p2 p1))"
  let ?disc = "fsub (fmul ?b ?b) (fmul (fmul 4 ?a) (fsub p0 p1))"
  define c where "c = (?disc \<ge> 0)"
  define x1 where
    "x1 = (if fmul ?a 2 = 0 then 1 / 2 else fmul (fadd (- ?b) (fsqrt ?disc)) (fdiv 1 (fmul ?a 2)))"
  define x2 where
    "x2 = (if fmul ?a 2 = 0 then 1 / 2 else fmul (fsub (- ?b) (fsqrt ?disc)) (fdiv 1 (fmul ?a 2)))"
  have eq: "bezierRange p0 p1 p2 p3 = (if c then upd x2 (upd x1 (m, M)) else (m, M))"
    unfolding bezierRange_def Let_def c_def [symmetric] x1_def [symmetric] x2_def [symmetric]
    by (simp add: upd_def m_def M_def D_def split_def)
  show ?thesis
  proof (cases c)
    case False
    then show ?thesis
      using eq start by (simp add: m_def [symmetric] M_def [symmetric] E_def [symmetric])
  next
    case True
    obtain mn1 mx1 where u1: "upd x1 (m, M) = (mn1, mx1)"
      by (cases "upd x1 (m, M)") auto
    have i1: "m - E \<le> mn1" "mn1 \<le> m" "M \<le> mx1" "mx1 \<le> M + E"
      using inv [OF start, of x1] by (simp_all add: u1)
    have "m - E \<le> fst (upd x2 (mn1, mx1)) \<and> fst (upd x2 (mn1, mx1)) \<le> m
      \<and> M \<le> snd (upd x2 (mn1, mx1)) \<and> snd (upd x2 (mn1, mx1)) \<le> M + E"
      by (rule inv [OF i1])
    then show ?thesis
      using True eq u1 by (simp add: m_def [symmetric] M_def [symmetric] E_def [symmetric])
  qed
qed

lemma on_segment:
  fixes p0 p3 u :: real
  assumes "0 \<le> u" "u \<le> 1"
  shows "min p0 p3 \<le> p0 + u * (p3 - p0) \<and> p0 + u * (p3 - p0) \<le> max p0 p3"
proof (cases "p0 \<le> p3")
  case True
  then have "0 \<le> u * (p3 - p0)" "u * (p3 - p0) \<le> p3 - p0"
    using assms by (simp_all add: mult_left_le_one_le)
  then show ?thesis using True by simp
next
  case False
  then have "0 \<le> u * (p0 - p3)" "u * (p0 - p3) \<le> p0 - p3"
    using assms by (simp_all add: mult_left_le_one_le)
  then show ?thesis using False by (simp add: algebra_simps)
qed

text \<open>
  Claim C7, as the code has it. The cursor is at \<open>(p, p)\<close> with \<open>p\<close> the double nearest to
  0.3, \<open>5404319552844595 / 2 ^ 54\<close>, and both control points and the target are that point
  as well. The coefficients \<open>a\<close>, \<open>b\<close>, \<open>c\<close> and the discriminant are zero, both roots are
  replaced by one half, and \<^verbatim>\<open>__bezierDot\<close> at one half rounds to
  \<open>2702159776422297 / 2 ^ 53\<close> (0.29999999999999993), below \<open>p\<close>. The box recorded starts
  below the end points on both axes.
\<close>

theorem bezier_rounding_counterexample:
  "isDouble (5404319552844595 / 18014398509481984)
   \<and> mCommandQueue (bezierCurveTo (5404319552844595 / 18014398509481984) (5404319552844595 / 18014398509481984) (5404319552844595 / 18014398509481984) (5404319552844595 / 18014398509481984) (5404319552844595 / 18014398509481984) (5404319552844595 / 18014398509481984) (moveTo (5404319552844595 / 18014398509481984) (5404319552844595 / 18014398509481984) Graphics_new)) =
       [\<lparr>cmd_type = MOVE_TO, cmd_data = [Num (5404319552844595 / 18014398509481984), Num (5404319552844595 / 18014398509481984)]\<rparr>,
        \<lparr>cmd_type = BEZIER_CURVE_TO,
          cmd_data = [Num (5404319552844595 / 18014398509481984), Num (5404319552844595 / 18014398509481984), Num (5404319552844595 / 18014398509481984), Num (5404319552844595 / 18014398509481984), Num (5404319552844595 / 18014398509481984), Num (5404319552844595 / 18014398509481984)]\<rparr>,
        \<lparr>cmd_type = BOUNDS, cmd_data = [Num (2702159776422297 / 9007199254740992), Num (2702159776422297 / 9007199254740992), Num (5404319552844595 / 18014398509481984), Num (5404319552844595 / 18014398509481984)]\<rparr>]
   \<and> (2702159776422297 / 9007199254740992 :: real) < min (5404319552844595 / 18014398509481984) (5404319552844595 / 18014398509481984)"
proof -
  have f0: "fl (5404319552844595 / 18014398509481984) = 5404319552844595 / 18014398509481984"
    by (subst fl_binade [where k = "- 2"]) (simp_all add: pow2_def roundEven_def)
  have f1: "fl (5404319552844595 / 9007199254740992) = 5404319552844595 / 9007199254740992"
    by (subst fl_binade [where k = "- 1"]) (simp_all add: pow2_def roundEven_def)
  have f2: "fl (- (5404319552844595 / 18014398509481984)) = - (5404319552844595 / 18014398509481984)"
    by (subst fl_binade [where k = "- 2"]) (simp_all add: pow2_def roundEven_def)
  have f3: "fl (1 / 2) = 1 / 2"
    by (subst fl_binade [where k = "- 1"]) (simp_all add: pow2_def roundEven_def)
  have f4: "fl (5404319552844595 / 36028797018963968) = 5404319552844595 / 36028797018963968"
    by (subst fl_binade [where k = "- 3"]) (simp_all add: pow2_def roundEven_def)
  have f5: "fl (5404319552844595 / 72057594037927936) = 5404319552844595 / 72057594037927936"
    by (subst fl_binade [where k = "- 4"]) (simp_all add: pow2_def roundEven_def)
  have f6: "fl (5404319552844595 / 144115188075855872) = 5404319552844595 / 144115188075855872"
    by (subst fl_binade [where k = "- 5"]) (simp_all add: pow2_def roundEven_def)
  have f7: "fl (16212958658533785 / 18014398509481984) = 2026619832316723 / 2251799813685248"
    by (subst fl_binade [where k = "- 1"]) (simp_all add: pow2_def roundEven_def)
  have f8: "fl (2026619832316723 / 4503599627370496) = 2026619832316723 / 4503599627370496"
    by (subst fl_binade [where k = "- 2"]) (simp_all add: pow2_def roundEven_def)
  have f9: "fl (2026619832316723 / 9007199254740992) = 2026619832316723 / 9007199254740992"
    by (subst fl_binade [where k = "- 3"]) (simp_all add: pow2_def roundEven_def)
  have f10: "fl (2026619832316723 / 18014398509481984) = 2026619832316723 / 18014398509481984"
    by (subst fl_binade [where k = "- 4"]) (simp_all add: pow2_def roundEven_def)
  have f11: "fl (21617278211378379 / 144115188075855872) = 5404319552844595 / 36028797018963968"
    by (subst fl_binade [where k = "- 3"]) (simp_all add: pow2_def roundEven_def)
  have f12: "fl (9457559217478041 / 36028797018963968) = 1182194902184755 / 4503599627370496"
    by (subst fl_binade [where k = "- 2"]) (simp_all add: pow2_def roundEven_def)
  have f13: "fl (43234556422756755 / 144115188075855872) = 2702159776422297 / 9007199254740992"
    by (subst fl_binade [where k = "- 2"]) (simp_all add: pow2_def roundEven_def)
  have zero: "bezierRange (5404319552844595 / 18014398509481984) (5404319552844595 / 18014398509481984) (5404319552844595 / 18014398509481984) (5404319552844595 / 18014398509481984) = (2702159776422297 / 9007199254740992, 5404319552844595 / 18014398509481984)"
    by (simp add: bezierRange_def bezierDot_def Let_def fadd_def fsub_def fmul_def fdiv_def
        fsqrt_def f0 f1 f2 f3 f4 f5 f6 f7 f8 f9 f10 f11 f12 f13)
  show ?thesis
    by (simp add: isDouble_def f0 pow2_def bezierCurveTo_def Let_def zero builder_defs)
qed

text \<open>
  Claim C7, amended. Both control points of a cubic segment lie on the straight line
  between its end points, the cursor and the target: each control point is the cursor moved
  towards the target by a fraction between 0 and 1. The coordinates of the end points are
  of magnitude at most \<open>pow2 1000\<close>, so that the evaluation of the curve does not overflow.
  Then \<^verbatim>\<open>bezierCurveTo\<close> records the box that \<^verbatim>\<open>__bezierRange\<close> gives on each axis; that
  box contains the span of the end points, from the smaller to the greater coordinate, and
  exceeds it on either side by at most the rounding error of \<^verbatim>\<open>__bezierDot\<close>:
  \<open>pow2 (- 46)\<close> times the greater magnitude of the two end coordinates, plus
  \<open>pow2 (- 1068)\<close>.
\<close>

theorem bezier_collinear_bounds:
  assumes "0 \<le> u" and "u \<le> 1" and "0 \<le> v" and "v \<le> 1"
    and "cp1x = mPosX g + u * (x - mPosX g)" and "cp1y = mPosY g + u * (y - mPosY g)"
    and "cp2x = mPosX g + v * (x - mPosX g)" and "cp2y = mPosY g + v * (y - mPosY g)"
    and "\<bar>mPosX g\<bar> \<le> pow2 1000" and "\<bar>mPosY g\<bar> \<le> pow2 1000"
    and "\<bar>x\<bar> \<le> pow2 1000" and "\<bar>y\<bar> \<le> pow2 1000"
  shows "mCommandQueue (bezierCurveTo cp1x cp1y cp2x cp2y x y g) =
           mCommandQueue g @
             [\<lparr>cmd_type = BEZIER_CURVE_TO,
                cmd_data = [Num cp1x, Num cp1y, Num cp2x, Num cp2y, Num x, Num y]\<rparr>,
              \<lparr>cmd_type = BOUNDS,
                cmd_data = [Num (fst (bezierRange (mPosX g) cp1x cp2x x)),
                            Num (fst (bezierRange (mPosY g) cp1y cp2y y)),
                            Num (snd (bezierRange (mPosX g) cp1x cp2x x)),
                            Num (snd (bezierRange (mPosY g) cp1y cp2y y))]\<rparr>]
       \<and> min (mPosX g) x - (pow2 (- 46) * max \<bar>mPosX g\<bar> \<bar>x\<bar> + pow2 (- 1068))
            \<le> fst (bezierRange (mPosX g) cp1x cp2x x)
       \<and> fst (bezierRange (mPosX g) cp1x cp2x x) \<le> min (mPosX g) x
       \<and> max (mPosX g) x \<le> snd (bezierRange (mPosX g) cp1x cp2x x)
       \<and> snd (bezierRange (mPosX g) cp1x cp2x x)
            \<le> max (mPosX g) x + (pow2 (- 46) * max \<bar>mPosX g\<bar> \<bar>x\<bar> + pow2 (- 1068))
       \<and> min (mPosY g) y - (pow2 (- 46) * max \<bar>mPosY g\<bar> \<bar>y\<bar> + pow2 (- 1068))
            \<le> fst (bezierRange (mPosY g) cp1y cp2y y)
       \<and> fst (bezierRange (mPosY g) cp1y cp2y y) \<le> min (mPosY g) y
       \<and> max (mPosY g) y \<le> snd (bezierRange (mPosY g) cp1y cp2y y)
       \<and> snd (bezierRange (mPosY g) cp1y cp2y y)
            \<le> max (mPosY g) y + (pow2 (- 46) * max \<bar>mPosY g\<bar> \<bar>y\<bar> + pow2 (- 1068))"
proof -
  have q: "mCommandQueue (bezierCurveTo cp1x cp1y cp2x cp2y x y g) =
           mCommandQueue g @
             [\<lparr>cmd_type = BEZIER_CURVE_TO,
                cmd_data = [Num cp1x, Num cp1y, Num cp2x, Num cp2y, Num x, Num y]\<rparr>,
              \<lparr>cmd_type = BOUNDS,
                cmd_data = [Num (fst (bezierRange (mPosX g) cp1x cp2x x)),
                            Num (fst (bezierRange (mPosY g) cp1y cp2y y)),
                            Num (snd (bezierRange (mPosX g) cp1x cp2x x)),
                            Num (snd (bezierRange (mPosY g) cp1y cp2y y))]\<rparr>]"
    by (simp add: bezierCurveTo_def Let_def pushCommand_def GraphicsCommand_new_def)
  have rx: "min (mPosX g) x - (pow2 (- 46) * max \<bar>mPosX g\<bar> \<bar>x\<bar> + pow2 (- 1068))
            \<le> fst (bezierRange (mPosX g) cp1x cp2x x)
       \<and> fst (bezierRange (mPosX g) cp1x cp2x x) \<le> min (mPosX g) x
       \<and> max (mPosX g) x \<le> snd (bezierRange (mPosX g) cp1x cp2x x)
       \<and> snd (bezierRange (mPosX g) cp1x cp2x x)
            \<le> max (mPosX g) x + (pow2 (- 46) * max \<bar>mPosX g\<bar> \<bar>x\<bar> + pow2 (- 1068))"
    using assms(1-4) on_segment [of u "mPosX g" x] on_segment [of v "mPosX g" x]
    unfolding assms(5,7) by (intro bezierRange_segment) simp_all
  have ry: "min (mPosY g) y - (pow2 (- 46) * max \<bar>mPosY g\<bar> \<bar>y\<bar> + pow2 (- 1068))
            \<le> fst (bezierRange (mPosY g) cp1y cp2y y)
       \<and> fst (bezierRange (mPosY g) cp1y cp2y y) \<le> min (mPosY g) y
       \<and> max (mPosY g) y \<le> snd (bezierRange (mPosY g) cp1y cp2y y)
       \<and> snd (bezierRange (mPosY g) cp1y cp2y y)
            \<le> max (mPosY g) y + (pow2 (- 46) * max \<bar>mPosY g\<bar> \<bar>y\<bar> + pow2 (- 1068))"
    using assms(1-4) on_segment [of u "mPosY g" y] on_segment [of v "mPosY g" y]
    unfolding assms(6,8) by (intro bezierRange_segment) simp_all
  show ?thesis
    using q rx ry by blast
qed

theorem bezier_collinear_bounds_witness:
  "(0::real) \<le> 1 / 3 \<and> (1::real) / 3 \<le> 1 \<and> (0::real) \<le> 2 / 3 \<and> (2::real) / 3 \<le> 1
   \<and> \<bar>1::real\<bar> \<le> pow2 1000 \<and> \<bar>2::real\<bar> \<le> pow2 1000
   \<and> \<bar>4::real\<bar> \<le> pow2 1000 \<and> \<bar>8::real\<bar> \<le> pow2 1000
   \<and> 1 - (pow2 (- 46) * 4 + pow2 (- 1068)) \<le> fst (bezierRange 1 2 3 4)
   \<and> fst (bezierRange 1 2 3 4) \<le> 1
   \<and> 4 \<le> snd (bezierRange 1 2 3 4)
   \<and> snd (bezierRange 1 2 3 4) \<le> 4 + (pow2 (- 46) * 4 + pow2 (- 1068))
   \<and> 2 - (pow2 (- 46) * 8 + pow2 (- 1068)) \<le> fst (bezierRange 2 4 6 8)
   \<and> fst (bezierRange 2 4 6 8) \<le> 2
   \<and> 8 \<le> snd (bezierRange 2 4 6 8)
   \<and> snd (bezierRange 2 4 6 8) \<le> 8 + (pow2 (- 46) * 8 + pow2 (- 1068))"
proof -
  let ?g = "moveTo 1 2 Graphics_new"
  have gx: "mPosX ?g = 1" and gy: "mPosY ?g = 2"
    by (simp_all add: builder_defs)
  have big: "\<bar>1::real\<bar> \<le> pow2 1000" "\<bar>2::real\<bar> \<le> pow2 1000"
    "\<bar>4::real\<bar> \<le> pow2 1000" "\<bar>8::real\<bar> \<le> pow2 1000"
    by (simp_all add: pow2_def)
  have h: "(0::real) \<le> 1 / 3" "(1::real) / 3 \<le> 1" "(0::real) \<le> 2 / 3" "(2::real) / 3 \<le> 1"
    by simp_all
  have c: "(2::real) = mPosX ?g + 1 / 3 * (4 - mPosX ?g)" "(4::real) = mPosY ?g + 1 / 3 * (8 - mPosY ?g)"
    "(3::real) = mPosX ?g + 2 / 3 * (4 - mPosX ?g)" "(6::real) = mPosY ?g + 2 / 3 * (8 - mPosY ?g)"
    by (simp_all add: gx gy)
  have m: "\<bar>mPosX ?g\<bar> \<le> pow2 1000" "\<bar>mPosY ?g\<bar> \<le> pow2 1000"
    using big by (simp_all only: gx gy)
  have mm: "min (1::real) 4 = 1" "max (1::real) 4 = 4" "min (2::real) 8 = 2" "max (2::real) 8 = 8"
    "max \<bar>1::real\<bar> \<bar>4\<bar> = 4" "max \<bar>2::real\<bar> \<bar>8\<bar> = 8"
    by simp_all
  note t = bezier_collinear_bounds [where u = "1 / 3" and v = "2 / 3" and g = ?g
        and x = 4 and y = 8 and ?cp1x.0 = 2 and ?cp1y.0 = 4 and ?cp2x.0 = 3 and ?cp2y.0 = 6,
        OF h c m big(3,4), unfolded gx gy mm]
  show ?thesis
    using h big t by blast
qed

subsection \<open>The shape-script decoder\<close>




lemma startsWith_r_not_s: "startsWith ''$r'' c \<Longrightarrow> \<not> startsWith ''$s'' c"
  by (simp add: startsWith_def)

lemma circle_nan_numbers: "circle_nan (Some x) (Some y) (Some r) g = circle x y r g"
  by (simp add: circle_nan_def circle_def nan_lift_def numArg_def)













end
